theory Spec2Isabelle
  imports Main
begin

section \<open>Values, errors and references\<close>

text \<open>
  JavaScript values that user callbacks return and that zone properties hold. Only the
  shape the zone core looks at is kept.
\<close>

datatype any = JUndefined | JNull | JBool bool | JNum int | JStr string

text \<open>
  A thrown value. \<open>Error\<close> carries the message of \<open>new Error(msg)\<close>; \<open>TypeError\<close> is what
  the runtime throws when a property of \<open>null\<close> or \<open>undefined\<close> is read or a non-function
  is called.
\<close>

datatype exn = Error string | TypeError string

datatype taskType = microTask | macroTask | eventTask

datatype taskState = notScheduled | scheduling | scheduled | running | canceling | unknown

fun taskType_str :: "taskType \<Rightarrow> string" where
  "taskType_str microTask = ''microTask''"
| "taskType_str macroTask = ''macroTask''"
| "taskType_str eventTask = ''eventTask''"

fun taskState_str :: "taskState \<Rightarrow> string" where
  "taskState_str notScheduled = ''notScheduled''"
| "taskState_str scheduling = ''scheduling''"
| "taskState_str scheduled = ''scheduled''"
| "taskState_str running = ''running''"
| "taskState_str canceling = ''canceling''"
| "taskState_str unknown = ''unknown''"

record taskData =
  isPeriodic :: bool
  useG :: bool

record hasTaskState =
  hasMicroTask :: bool
  hasMacroTask :: bool
  hasEventTask :: bool
  change :: taskType

text \<open>
  A \<open>ZoneSpec\<close> is referred to by a number (the user's object) or is the built-in
  forwarding spec \<open>DELEGATE_ZS\<close>. The hook functions of a user's spec live in the
  environment \<open>env\<close> below, looked up by that number.
\<close>

datatype zoneSpec = ZoneSpec nat | DELEGATE_ZS

section \<open>ZoneDelegate and Zone objects\<close>

text \<open>
  The immutable part of a \<open>ZoneDelegate\<close>: the owning zone (by identity), and for each
  hook the cached triple (spec, parent delegate, zone of the spec). The triples of
  \<open>fork\<close> and \<open>intercept\<close> are not used by the operations below and are left out.
  \<open>_hasTaskDlgtOwner\<close> is the delegate itself whenever \<open>_hasTaskZS\<close> is set, so it is
  not a field. The mutable \<open>_taskCounts\<close> are in the world, keyed by the owning zone.
\<close>

datatype zoneDelegate = ZoneDelegate
  (zone: nat)
  (parentDelegate: "zoneDelegate option")
  (invokeZS: "zoneSpec option") (invokeDlgt: "zoneDelegate option") (invokeCurrZone: "nat option")
  (handleErrorZS: "zoneSpec option") (handleErrorDlgt: "zoneDelegate option")
    (handleErrorCurrZone: "nat option")
  (scheduleTaskZS: "zoneSpec option") (scheduleTaskDlgt: "zoneDelegate option")
    (scheduleTaskCurrZone: "nat option")
  (invokeTaskZS: "zoneSpec option") (invokeTaskDlgt: "zoneDelegate option")
    (invokeTaskCurrZone: "nat option")
  (cancelTaskZS: "zoneSpec option") (cancelTaskDlgt: "zoneDelegate option")
    (cancelTaskCurrZone: "nat option")
  (hasTaskZS: "zoneSpec option") (hasTaskDlgt: "zoneDelegate option")
    (hasTaskCurrZone: "nat option")

text \<open>
  A properties object \<open>{[key: string]: any}\<close>: whether \<open>Object.prototype\<close> is on its
  prototype chain (it is for an object literal, it is not for \<open>Object.create(null)\<close>), and
  the map of its own keys. Functions are not among the modelled values, so an own key
  \<open>hasOwnProperty\<close> never holds a function.
\<close>

datatype propsObj = PropsObj (inheritsObject: bool) (ownProps: "string \<rightharpoonup> any")

text \<open>
  A \<open>Zone\<close> is immutable after construction. \<open>zid\<close> stands for the identity of the
  object: \<open>===\<close> on zones is equality of \<open>zid\<close>.
\<close>

datatype zone = Zone
  (zid: nat)
  (parent: "zone option")
  (name: string)
  (properties: propsObj)
  (zoneDelegate: zoneDelegate)

text \<open>
  A \<open>ZoneTask\<close>. \<open>callback\<close>, \<open>scheduleFn\<close> and \<open>cancelFn\<close> are references to user
  functions. \<open>zoneDelegates\<close> is \<open>null\<close> or an array; the array carries its identity,
  which \<open>Zone.scheduleTask\<close> compares with \<open>===\<close>.
\<close>

record task =
  type :: taskType
  source :: string
  callback :: nat
  data :: "taskData option"
  scheduleFn :: "nat option"
  cancelFn :: "nat option"
  task_zone :: "zone option"
  runCount :: int
  zoneDelegates :: "(nat \<times> zoneDelegate list) option"
  state :: taskState

section \<open>The process-wide state\<close>

text \<open>
  \<open>tasks\<close> is the heap of task objects, \<open>taskCounts\<close> the counters of each delegate,
  \<open>currentZoneFrame\<close> the linked list of frames (head first, \<open>[]\<close> is \<open>null\<close>),
  \<open>drainRequests\<close> counts the drains handed to the host by \<open>scheduleMicroTask\<close>,
  \<open>nextArray\<close> allocates array identities and \<open>user\<close> is whatever state the user's
  program has.
\<close>

record 'u world =
  tasks :: "nat \<Rightarrow> task"
  taskCounts :: "nat \<Rightarrow> taskType \<Rightarrow> int"
  currentZoneFrame :: "zone list"
  currentTask :: "nat option"
  numberOfNestedTaskFrames :: int
  microTaskQueue :: "nat list"
  isDrainingMicrotaskQueue :: bool
  drainRequests :: nat
  nextArray :: nat
  user :: 'u

type_synonym ('a, 'u) js = "'u world \<Rightarrow> (exn + 'a) \<times> 'u world"

text \<open>
  The user's code: every function the core calls and does not define. Each takes the
  state and returns a value or a thrown error, with the new state. \<open>applyFn f this args\<close>
  is \<open>f.apply(this, args)\<close> for a callback, \<open>callTaskFn f task\<close> is \<open>task.scheduleFn(task)\<close>
  or \<open>task.cancelFn(task)\<close>, each \<open>onH k\<close> is the hook \<open>onH\<close> of the user's spec \<open>k\<close>,
  given the parent delegate, the zone of the spec, the target zone and the arguments of
  the operation, and the last two are the settable hooks of the private API. Zones are
  passed to hooks by identity. The debug string \<open>source\<close> of \<open>run\<close> and \<open>invoke\<close> is left
  out.
\<close>

record 'u env =
  applyFn :: "nat \<Rightarrow> any \<Rightarrow> any list \<Rightarrow> (any, 'u) js"
  callTaskFn :: "nat \<Rightarrow> nat \<Rightarrow> (any, 'u) js"
  onInvoke :: "nat \<Rightarrow> zoneDelegate option \<Rightarrow> nat option \<Rightarrow> nat \<Rightarrow> nat \<Rightarrow> any \<Rightarrow> any list
     \<Rightarrow> (any, 'u) js"
  onHandleError :: "nat \<Rightarrow> zoneDelegate option \<Rightarrow> nat option \<Rightarrow> nat \<Rightarrow> exn \<Rightarrow> (bool, 'u) js"
  onScheduleTask :: "nat \<Rightarrow> zoneDelegate option \<Rightarrow> nat option \<Rightarrow> nat \<Rightarrow> nat
     \<Rightarrow> (nat option, 'u) js"
  onInvokeTask :: "nat \<Rightarrow> zoneDelegate option \<Rightarrow> nat option \<Rightarrow> nat \<Rightarrow> nat \<Rightarrow> any \<Rightarrow> any list
     \<Rightarrow> (any, 'u) js"
  onCancelTask :: "nat \<Rightarrow> zoneDelegate option \<Rightarrow> nat option \<Rightarrow> nat \<Rightarrow> nat \<Rightarrow> (any, 'u) js"
  onHasTask :: "nat \<Rightarrow> zoneDelegate option \<Rightarrow> nat option \<Rightarrow> nat \<Rightarrow> hasTaskState
     \<Rightarrow> (any, 'u) js"
  onUnhandledError :: "exn \<Rightarrow> (any, 'u) js"
  microtaskDrainDone :: "(any, 'u) js"

section \<open>Construction of zones\<close>

text \<open>
  The \<open>ZoneSpec\<close> object as the constructors read it: its identity, its name and
  properties, and which hooks it defines.
\<close>

record zoneSpecObj =
  zsRef :: nat
  zsName :: string
  zsProperties :: "propsObj option"
  zsOnFork :: bool
  zsOnIntercept :: bool
  zsOnInvoke :: bool
  zsOnHandleError :: bool
  zsOnScheduleTask :: bool
  zsOnInvokeTask :: bool
  zsOnCancelTask :: bool
  zsOnHasTask :: bool

text \<open>
  \<open>new ZoneDelegate(zone, parentDelegate, zoneSpec)\<close>. Each cached field is
  \<open>zoneSpec && (zoneSpec.onH ? own : parentDelegate!.field)\<close>; reading a field of a
  \<open>null\<close> parent delegate or of a \<open>null\<close> spec throws.
\<close>

definition new_ZoneDelegate ::
  "nat \<Rightarrow> zoneDelegate option \<Rightarrow> zoneSpecObj option \<Rightarrow> exn + zoneDelegate" where
  "new_ZoneDelegate z parentDlgt zoneSpec =
    (case zoneSpec of
       None \<Rightarrow>
         (if (case parentDlgt of None \<Rightarrow> False | Some p \<Rightarrow> hasTaskZS p \<noteq> None)
          then Inl (TypeError ''Cannot read property onScheduleTask of null'')
          else Inr (ZoneDelegate z parentDlgt None None None None None None None None None
                      None None None None None None None None None))
     | Some zs \<Rightarrow>
         (case parentDlgt of
            None \<Rightarrow>
              (if zsOnFork zs \<and> zsOnIntercept zs \<and> zsOnInvoke zs \<and> zsOnHandleError zs
                  \<and> zsOnScheduleTask zs \<and> zsOnInvokeTask zs \<and> zsOnCancelTask zs
               then Inr (ZoneDelegate z None
                      (Some (ZoneSpec (zsRef zs))) None (Some z)
                      (Some (ZoneSpec (zsRef zs))) None (Some z)
                      (Some (ZoneSpec (zsRef zs))) None (Some z)
                      (Some (ZoneSpec (zsRef zs))) None (Some z)
                      (Some (ZoneSpec (zsRef zs))) None (Some z)
                      (if zsOnHasTask zs then Some (ZoneSpec (zsRef zs)) else None) None
                      (if zsOnHasTask zs then Some z else None))
               else Inl (TypeError ''Cannot read property of null''))
          | Some p \<Rightarrow>
              (let own = Some (ZoneSpec (zsRef zs));
                   counting = (zsOnHasTask zs \<or> hasTaskZS p \<noteq> None);
                   forced = (\<lambda>defined. counting \<and> \<not> defined)
               in Inr (ZoneDelegate z (Some p)
                  (if zsOnInvoke zs then own else invokeZS p)
                  (if zsOnInvoke zs then Some p else invokeDlgt p)
                  (if zsOnInvoke zs then Some z else Some (zone p))
                  (if zsOnHandleError zs then own else handleErrorZS p)
                  (if zsOnHandleError zs then Some p else handleErrorDlgt p)
                  (if zsOnHandleError zs then Some z else Some (zone p))
                  (if forced (zsOnScheduleTask zs) then Some DELEGATE_ZS
                   else if zsOnScheduleTask zs then own else scheduleTaskZS p)
                  (if forced (zsOnScheduleTask zs) then Some p
                   else if zsOnScheduleTask zs then Some p else scheduleTaskDlgt p)
                  (if forced (zsOnScheduleTask zs) then Some z
                   else if zsOnScheduleTask zs then Some z else Some (zone p))
                  (if forced (zsOnInvokeTask zs) then Some DELEGATE_ZS
                   else if zsOnInvokeTask zs then own else invokeTaskZS p)
                  (if forced (zsOnInvokeTask zs) then Some p
                   else if zsOnInvokeTask zs then Some p else invokeTaskDlgt p)
                  (if forced (zsOnInvokeTask zs) then Some z
                   else if zsOnInvokeTask zs then Some z else Some (zone p))
                  (if forced (zsOnCancelTask zs) then Some DELEGATE_ZS
                   else if zsOnCancelTask zs then own else cancelTaskZS p)
                  (if forced (zsOnCancelTask zs) then Some p
                   else if zsOnCancelTask zs then Some p else cancelTaskDlgt p)
                  (if forced (zsOnCancelTask zs) then Some z
                   else if zsOnCancelTask zs then Some z else Some (zone p))
                  (if counting then Some (if zsOnHasTask zs then ZoneSpec (zsRef zs) else DELEGATE_ZS)
                   else None)
                  (if counting then Some p else None)
                  (if counting then Some z else None)))))"

text \<open>
  \<open>new Zone(parent, zoneSpec)\<close>; \<open>i\<close> is the identity of the new object.
\<close>

definition new_Zone :: "nat \<Rightarrow> zone option \<Rightarrow> zoneSpecObj option \<Rightarrow> exn + zone" where
  "new_Zone i par zoneSpec =
    (case new_ZoneDelegate i (map_option zoneDelegate par) zoneSpec of
       Inl e \<Rightarrow> Inl e
     | Inr d \<Rightarrow> Inr (Zone i par
         (case zoneSpec of None \<Rightarrow> ''<root>''
          | Some zs \<Rightarrow> if zsName zs = [] then ''unnamed'' else zsName zs)
         (case zoneSpec of None \<Rightarrow> PropsObj True Map.empty
          | Some zs \<Rightarrow>
              (case zsProperties zs of None \<Rightarrow> PropsObj True Map.empty | Some ps \<Rightarrow> ps))
         d))"

section \<open>Zone.get and Zone.getZoneWith\<close>

text \<open>
  The call \<open>props.hasOwnProperty(key)\<close>. The method is looked up on the object itself:
  an own key \<open>hasOwnProperty\<close> shadows the one of \<open>Object.prototype\<close> and, holding no
  function, makes the call a \<open>TypeError\<close>; so does an object without
  \<open>Object.prototype\<close>, where the lookup gives \<open>undefined\<close>. Otherwise the call says
  whether \<open>key\<close> is an own key.
\<close>

definition hasOwnProperty :: "propsObj \<Rightarrow> string \<Rightarrow> exn + bool" where
  "hasOwnProperty props key =
     (if ownProps props ''hasOwnProperty'' \<noteq> None
      then Inl (TypeError ''current._properties.hasOwnProperty is not a function'')
      else if inheritsObject props then Inr (ownProps props key \<noteq> None)
      else Inl (TypeError ''current._properties.hasOwnProperty is not a function''))"

text \<open>
  \<open>getZoneWith\<close>: the loop \<open>while (current) { if (current._properties.hasOwnProperty(key))
  return current; current = current._parent }\<close>, by recursion on the parent chain.
\<close>

fun getZoneWith :: "zone \<Rightarrow> string \<Rightarrow> exn + zone option" where
  "getZoneWith (Zone i p n props d) key =
     (case hasOwnProperty props key of
        Inl e \<Rightarrow> Inl e
      | Inr True \<Rightarrow> Inr (Some (Zone i p n props d))
      | Inr False \<Rightarrow> (case p of None \<Rightarrow> Inr None | Some z \<Rightarrow> getZoneWith z key))"

text \<open>
  Reading \<open>obj[key]\<close> for an own key; \<open>get\<close> reads only a key that \<open>hasOwnProperty\<close> has
  found. An absent key reads \<open>undefined\<close>.
\<close>

definition prop_read :: "propsObj \<Rightarrow> string \<Rightarrow> any" where
  "prop_read props key = (case ownProps props key of None \<Rightarrow> JUndefined | Some v \<Rightarrow> v)"

definition get :: "zone \<Rightarrow> string \<Rightarrow> exn + any" where
  "get z key =
     (case getZoneWith z key of
        Inl e \<Rightarrow> Inl e
      | Inr (Some zone') \<Rightarrow> Inr (prop_read (properties zone') key)
      | Inr None \<Rightarrow> Inr JUndefined)"

text \<open>The parent chain of a zone, the zone itself first, the root last.\<close>

fun parent_chain :: "zone \<Rightarrow> zone list" where
  "parent_chain (Zone i p n props d) =
     Zone i p n props d # (case p of None \<Rightarrow> [] | Some z \<Rightarrow> parent_chain z)"

section \<open>ZoneTask\<close>

definition new_ZoneTask ::
  "taskType \<Rightarrow> string \<Rightarrow> nat \<Rightarrow> taskData option \<Rightarrow> nat option \<Rightarrow> nat option \<Rightarrow> task" where
  "new_ZoneTask ty src cb options sFn cFn =
     \<lparr>type = ty, source = src, callback = cb, data = options, scheduleFn = sFn,
      cancelFn = cFn, task_zone = None, runCount = 0, zoneDelegates = None,
      state = notScheduled\<rparr>"

definition transition_message ::
  "task \<Rightarrow> taskState \<Rightarrow> taskState \<Rightarrow> taskState option \<Rightarrow> string" where
  "transition_message t toState fromState1 fromState2 =
     taskType_str (type t) @ '' '' @ [CHR 0x27] @ source t @ [CHR 0x27]
       @ '': can not transition to '' @ [CHR 0x27] @ taskState_str toState @ [CHR 0x27]
       @ '', expecting state '' @ [CHR 0x27] @ taskState_str fromState1 @ [CHR 0x27]
       @ (case fromState2 of None \<Rightarrow> []
          | Some s \<Rightarrow> '' or '' @ [CHR 0x27] @ taskState_str s @ [CHR 0x27])
       @ '', was '' @ [CHR 0x27] @ taskState_str (state t) @ [CHR 0x27] @ ''.''"

definition transitionTo ::
  "nat \<Rightarrow> taskState \<Rightarrow> taskState \<Rightarrow> taskState option \<Rightarrow> (unit, 'u) js" where
  "transitionTo tid toState fromState1 fromState2 w =
     (let t = tasks w tid in
      if state t = fromState1 \<or> Some (state t) = fromState2
      then (Inr (),
            w\<lparr>tasks := (tasks w)(tid :=
                 t\<lparr>state := toState,
                   zoneDelegates := (if toState = notScheduled then None else zoneDelegates t)\<rparr>)\<rparr>)
      else (Inl (Error (transition_message t toState fromState1 fromState2)), w))"

definition cancelScheduleRequest :: "nat \<Rightarrow> (unit, 'u) js" where
  "cancelScheduleRequest tid w = transitionTo tid notScheduled scheduling None w"

section \<open>ZoneDelegate: dispatch to the hooks\<close>

text \<open>
  Calling a hook of a cached spec. \<open>DELEGATE_ZS\<close> defines \<open>onHasTask\<close>,
  \<open>onScheduleTask\<close>, \<open>onInvokeTask\<close> and \<open>onCancelTask\<close> only, each forwarding to the
  same method of the delegate it is given; calling a hook it lacks, or a method of a
  \<open>null\<close> delegate, throws a \<open>TypeError\<close>.
\<close>

definition not_a_function :: exn where
  "not_a_function = TypeError ''undefined is not a function''"

definition null_delegate :: exn where
  "null_delegate = TypeError ''Cannot read property of null''"

definition ZoneDelegate_invoke ::
  "'u env \<Rightarrow> zoneDelegate \<Rightarrow> nat \<Rightarrow> nat \<Rightarrow> any \<Rightarrow> any list \<Rightarrow> (any, 'u) js" where
  "ZoneDelegate_invoke env d targetZone cb applyThis applyArgs w =
     (case invokeZS d of
        Some (ZoneSpec k) \<Rightarrow>
          onInvoke env k (invokeDlgt d) (invokeCurrZone d) targetZone cb applyThis applyArgs w
      | Some DELEGATE_ZS \<Rightarrow> (Inl not_a_function, w)
      | None \<Rightarrow> applyFn env cb applyThis applyArgs w)"

definition ZoneDelegate_handleError ::
  "'u env \<Rightarrow> zoneDelegate \<Rightarrow> nat \<Rightarrow> exn \<Rightarrow> (bool, 'u) js" where
  "ZoneDelegate_handleError env d targetZone error w =
     (case handleErrorZS d of
        Some (ZoneSpec k) \<Rightarrow>
          onHandleError env k (handleErrorDlgt d) (handleErrorCurrZone d) targetZone error w
      | Some DELEGATE_ZS \<Rightarrow> (Inl not_a_function, w)
      | None \<Rightarrow> (Inr True, w))"

text \<open>
  \<open>scheduleMicroTask(task)\<close>: when no task frame is open and the queue is empty, a drain
  is handed to the host (the resolved promise's \<open>then\<close>, or the zero-delay timer); then
  the task is pushed.
\<close>

definition scheduleMicroTask :: "nat option \<Rightarrow> 'u world \<Rightarrow> 'u world" where
  "scheduleMicroTask tk w =
     (let w1 = (if numberOfNestedTaskFrames w = 0 \<and> length (microTaskQueue w) = 0
                then w\<lparr>drainRequests := drainRequests w + 1\<rparr> else w)
      in case tk of
           None \<Rightarrow> w1
         | Some tid \<Rightarrow> w1\<lparr>microTaskQueue := microTaskQueue w1 @ [tid]\<rparr>)"

function ZoneDelegate_scheduleTask ::
  "'u env \<Rightarrow> zoneDelegate \<Rightarrow> nat \<Rightarrow> nat \<Rightarrow> (nat, 'u) js" where
  "ZoneDelegate_scheduleTask env d targetZone tid w =
     (case scheduleTaskZS d of
        Some zs \<Rightarrow>
          (case (if hasTaskZS d \<noteq> None
                 then (case zoneDelegates (tasks w tid) of
                         None \<Rightarrow> (Inl (TypeError ''Cannot read property push of null''), w)
                       | Some (a, ds) \<Rightarrow>
                           (Inr (), w\<lparr>tasks := (tasks w)(tid :=
                              (tasks w tid)\<lparr>zoneDelegates := Some (a, ds @ [d])\<rparr>)\<rparr>))
                 else (Inr (), w)) of
             (Inl e, w1) \<Rightarrow> (Inl e, w1)
           | (Inr _, w1) \<Rightarrow>
               (case zs of
                  ZoneSpec k \<Rightarrow>
                    (case onScheduleTask env k (scheduleTaskDlgt d) (scheduleTaskCurrZone d)
                            targetZone tid w1 of
                       (Inl e, w2) \<Rightarrow> (Inl e, w2)
                     | (Inr None, w2) \<Rightarrow> (Inr tid, w2)
                     | (Inr (Some returnTask), w2) \<Rightarrow> (Inr returnTask, w2))
                | DELEGATE_ZS \<Rightarrow>
                    (case scheduleTaskDlgt d of
                       None \<Rightarrow> (Inl null_delegate, w1)
                     | Some p \<Rightarrow> ZoneDelegate_scheduleTask env p targetZone tid w1)))
      | None \<Rightarrow>
          (case scheduleFn (tasks w tid) of
             Some f \<Rightarrow>
               (case callTaskFn env f tid w of
                  (Inl e, w1) \<Rightarrow> (Inl e, w1)
                | (Inr _, w1) \<Rightarrow> (Inr tid, w1))
           | None \<Rightarrow>
               (if type (tasks w tid) = microTask
                then (Inr tid, scheduleMicroTask (Some tid) w)
                else (Inl (Error ''Task is missing scheduleFn.''), w))))"
  by pat_completeness auto
termination
  by (relation "measure (\<lambda>(env, d, targetZone, tid, w). size d)")
     (auto, case_tac d, auto)

declare ZoneDelegate_scheduleTask.simps [simp del]

function ZoneDelegate_invokeTask ::
  "'u env \<Rightarrow> zoneDelegate \<Rightarrow> nat \<Rightarrow> nat \<Rightarrow> any \<Rightarrow> any list \<Rightarrow> (any, 'u) js" where
  "ZoneDelegate_invokeTask env d targetZone tid applyThis applyArgs w =
     (case invokeTaskZS d of
        Some (ZoneSpec k) \<Rightarrow>
          onInvokeTask env k (invokeTaskDlgt d) (invokeTaskCurrZone d) targetZone tid
            applyThis applyArgs w
      | Some DELEGATE_ZS \<Rightarrow>
          (case invokeTaskDlgt d of
             None \<Rightarrow> (Inl null_delegate, w)
           | Some p \<Rightarrow> ZoneDelegate_invokeTask env p targetZone tid applyThis applyArgs w)
      | None \<Rightarrow> applyFn env (callback (tasks w tid)) applyThis applyArgs w)"
  by pat_completeness auto
termination
  by (relation "measure (\<lambda>(env, d, targetZone, tid, applyThis, applyArgs, w). size d)")
     (auto, case_tac d, auto)

declare ZoneDelegate_invokeTask.simps [simp del]

function ZoneDelegate_cancelTask ::
  "'u env \<Rightarrow> zoneDelegate \<Rightarrow> nat \<Rightarrow> nat \<Rightarrow> (any, 'u) js" where
  "ZoneDelegate_cancelTask env d targetZone tid w =
     (case cancelTaskZS d of
        Some (ZoneSpec k) \<Rightarrow>
          onCancelTask env k (cancelTaskDlgt d) (cancelTaskCurrZone d) targetZone tid w
      | Some DELEGATE_ZS \<Rightarrow>
          (case cancelTaskDlgt d of
             None \<Rightarrow> (Inl null_delegate, w)
           | Some p \<Rightarrow> ZoneDelegate_cancelTask env p targetZone tid w)
      | None \<Rightarrow>
          (case cancelFn (tasks w tid) of
             None \<Rightarrow> (Inl (Error ''Task is not cancelable''), w)
           | Some f \<Rightarrow> callTaskFn env f tid w))"
  by pat_completeness auto
termination
  by (relation "measure (\<lambda>(env, d, targetZone, tid, w). size d)")
     (auto, case_tac d, auto)

declare ZoneDelegate_cancelTask.simps [simp del]

text \<open>
  \<open>hasTask\<close>: the hook runs inside \<open>try\<close>; an error it throws goes to this delegate's
  \<open>handleError\<close>, whose result is dropped.
\<close>

function ZoneDelegate_hasTask ::
  "'u env \<Rightarrow> zoneDelegate \<Rightarrow> nat \<Rightarrow> hasTaskState \<Rightarrow> (unit, 'u) js" where
  "ZoneDelegate_hasTask env d targetZone isEmpty w =
     (case (case hasTaskZS d of
              None \<Rightarrow> (Inr (), w)
            | Some (ZoneSpec k) \<Rightarrow>
                (case onHasTask env k (hasTaskDlgt d) (hasTaskCurrZone d) targetZone isEmpty w of
                   (Inl e, w1) \<Rightarrow> (Inl e, w1)
                 | (Inr _, w1) \<Rightarrow> (Inr (), w1))
            | Some DELEGATE_ZS \<Rightarrow>
                (case hasTaskDlgt d of
                   None \<Rightarrow> (Inl null_delegate, w)
                 | Some p \<Rightarrow> ZoneDelegate_hasTask env p targetZone isEmpty w)) of
        (Inr _, w1) \<Rightarrow> (Inr (), w1)
      | (Inl err, w1) \<Rightarrow>
          (case ZoneDelegate_handleError env d targetZone err w1 of
             (Inl e, w2) \<Rightarrow> (Inl e, w2)
           | (Inr _, w2) \<Rightarrow> (Inr (), w2)))"
  by pat_completeness auto
termination
  by (relation "measure (\<lambda>(env, d, targetZone, isEmpty, w). size d)")
     (auto, case_tac d, auto)

declare ZoneDelegate_hasTask.simps [simp del]

text \<open>
  \<open>ZoneDelegate._updateTaskCount(type, count)\<close>. The new count is stored before it is
  checked.
\<close>

definition ZoneDelegate_updateTaskCount ::
  "'u env \<Rightarrow> zoneDelegate \<Rightarrow> taskType \<Rightarrow> int \<Rightarrow> (unit, 'u) js" where
  "ZoneDelegate_updateTaskCount env d ty count w =
     (let counts = taskCounts w (zone d);
          prev = counts ty;
          next = prev + count;
          counts' = counts(ty := next);
          w1 = w\<lparr>taskCounts := (taskCounts w)(zone d := counts')\<rparr>
      in if next < 0 then (Inl (Error ''More tasks executed then were scheduled.''), w1)
         else if prev = 0 \<or> next = 0
         then ZoneDelegate_hasTask env d (zone d)
                \<lparr>hasMicroTask = counts' microTask > 0,
                 hasMacroTask = counts' macroTask > 0,
                 hasEventTask = counts' eventTask > 0,
                 change = ty\<rparr> w1
         else (Inr (), w1))"

section \<open>Zone: run, runGuarded\<close>

text \<open>
  \<open>_currentZoneFrame = _currentZoneFrame.parent\<close>: reading \<open>parent\<close> of \<open>null\<close> throws.
\<close>

definition popFrame :: "(unit, 'u) js" where
  "popFrame w =
     (case currentZoneFrame w of
        [] \<Rightarrow> (Inl (TypeError ''Cannot read property parent of null''), w)
      | f # fs \<Rightarrow> (Inr (), w\<lparr>currentZoneFrame := fs\<rparr>))"

definition pushFrame :: "zone \<Rightarrow> 'u world \<Rightarrow> 'u world" where
  "pushFrame z w = w\<lparr>currentZoneFrame := z # currentZoneFrame w\<rparr>"

text \<open>
  \<open>try { return body } finally { fin }\<close>: the \<open>finally\<close> block runs on both outcomes;
  if it throws, its error replaces the outcome of the body.
\<close>

definition try_finally :: "(exn + 'a) \<times> 'u world \<Rightarrow> (unit, 'u) js \<Rightarrow> (exn + 'a) \<times> 'u world" where
  "try_finally body fin =
     (case body of (r, w1) \<Rightarrow>
        (case fin w1 of (Inl e, w2) \<Rightarrow> (Inl e, w2) | (Inr _, w2) \<Rightarrow> (r, w2)))"

definition run :: "'u env \<Rightarrow> zone \<Rightarrow> nat \<Rightarrow> any \<Rightarrow> any list \<Rightarrow> (any, 'u) js" where
  "run env z cb applyThis applyArgs w =
     try_finally
       (ZoneDelegate_invoke env (zoneDelegate z) (zid z) cb applyThis applyArgs (pushFrame z w))
       popFrame"

text \<open>
  \<open>try { return invoke(...) } catch (error) { if (handleError(this, error)) throw error }\<close>:
  when \<open>handleError\<close> returns false the function falls through and returns
  \<open>undefined\<close>; an error thrown by \<open>handleError\<close> itself propagates.
\<close>

definition guarded ::
  "'u env \<Rightarrow> zone \<Rightarrow> (exn + any) \<times> 'u world \<Rightarrow> (exn + any) \<times> 'u world" where
  "guarded env z body =
     (case body of
        (Inr v, w1) \<Rightarrow> (Inr v, w1)
      | (Inl error, w1) \<Rightarrow>
          (case ZoneDelegate_handleError env (zoneDelegate z) (zid z) error w1 of
             (Inl e, w2) \<Rightarrow> (Inl e, w2)
           | (Inr True, w2) \<Rightarrow> (Inl error, w2)
           | (Inr False, w2) \<Rightarrow> (Inr JUndefined, w2)))"

definition runGuarded :: "'u env \<Rightarrow> zone \<Rightarrow> nat \<Rightarrow> any \<Rightarrow> any list \<Rightarrow> (any, 'u) js" where
  "runGuarded env z cb applyThis applyArgs w =
     try_finally
       (guarded env z
          (ZoneDelegate_invoke env (zoneDelegate z) (zid z) cb
             (if applyThis = JUndefined then JNull else applyThis) applyArgs (pushFrame z w)))
       popFrame"

section \<open>Zone: task counters, runTask, scheduleTask, cancelTask\<close>

fun updateTaskCount_loop ::
  "'u env \<Rightarrow> taskType \<Rightarrow> int \<Rightarrow> zoneDelegate list \<Rightarrow> (unit, 'u) js" where
  "updateTaskCount_loop env ty count [] w = (Inr (), w)"
| "updateTaskCount_loop env ty count (d # ds) w =
     (case ZoneDelegate_updateTaskCount env d ty count w of
        (Inl e, w1) \<Rightarrow> (Inl e, w1)
      | (Inr _, w1) \<Rightarrow> updateTaskCount_loop env ty count ds w1)"

text \<open>
  \<open>Zone._updateTaskCount(task, count)\<close>: the array is read once, the field is nulled when
  \<open>count == -1\<close>, and \<open>zoneDelegates.length\<close> throws when the field was \<open>null\<close>.
\<close>

definition Zone_updateTaskCount :: "'u env \<Rightarrow> nat \<Rightarrow> int \<Rightarrow> (unit, 'u) js" where
  "Zone_updateTaskCount env tid count w =
     (let t = tasks w tid;
          zds = zoneDelegates t;
          w1 = (if count = - 1
                then w\<lparr>tasks := (tasks w)(tid := t\<lparr>zoneDelegates := None\<rparr>)\<rparr> else w)
      in case zds of
           None \<Rightarrow> (Inl (TypeError ''Cannot read property length of null''), w1)
         | Some (a, ds) \<Rightarrow> updateTaskCount_loop env (type t) count ds w1)"

definition isPeriodicData :: "task \<Rightarrow> bool" where
  "isPeriodicData t = (case data t of None \<Rightarrow> False | Some dt \<Rightarrow> isPeriodic dt)"

definition zone_name_or_NO_ZONE :: "zone option \<Rightarrow> string" where
  "zone_name_or_NO_ZONE zo = (case zo of None \<Rightarrow> ''NO ZONE'' | Some z \<Rightarrow> name z)"

definition same_zone :: "zone option \<Rightarrow> zone \<Rightarrow> bool" where
  "same_zone zo z = (case zo of None \<Rightarrow> False | Some tz \<Rightarrow> zid tz = zid z)"

text \<open>The body of \<open>runTask\<close>'s outer \<open>try\<close>.\<close>

definition runTask_try ::
  "'u env \<Rightarrow> zone \<Rightarrow> nat \<Rightarrow> any \<Rightarrow> any list \<Rightarrow> (any, 'u) js" where
  "runTask_try env z tid applyThis applyArgs w =
     (let t = tasks w tid;
          w1 = (if type t = macroTask \<and> data t \<noteq> None \<and> \<not> isPeriodicData t
                then w\<lparr>tasks := (tasks w)(tid := t\<lparr>cancelFn := None\<rparr>)\<rparr> else w)
      in guarded env z
           (ZoneDelegate_invokeTask env (zoneDelegate z) (zid z) tid applyThis applyArgs w1))"

text \<open>
  The \<open>finally\<close> block of \<open>runTask\<close>. Its statements run in order; the frame is popped
  and the previous task restored only after the state bookkeeping has returned.
\<close>

definition runTask_finally ::
  "'u env \<Rightarrow> nat \<Rightarrow> bool \<Rightarrow> nat option \<Rightarrow> (unit, 'u) js" where
  "runTask_finally env tid reEntryGuard previousTask w =
     (case
        (let t = tasks w tid in
         if state t \<noteq> notScheduled \<and> state t \<noteq> unknown
         then (if type t = eventTask \<or> isPeriodicData t
               then (if reEntryGuard then transitionTo tid scheduled running None w
                     else (Inr (), w))
               else (case Zone_updateTaskCount env tid (- 1)
                            (w\<lparr>tasks := (tasks w)(tid := t\<lparr>runCount := 0\<rparr>)\<rparr>) of
                       (Inl e, w1) \<Rightarrow> (Inl e, w1)
                     | (Inr _, w1) \<Rightarrow>
                         (if reEntryGuard
                          then transitionTo tid notScheduled running (Some notScheduled) w1
                          else (Inr (), w1))))
         else (Inr (), w)) of
        (Inl e, w2) \<Rightarrow> (Inl e, w2)
      | (Inr _, w2) \<Rightarrow>
          (case popFrame w2 of
             (Inl e, w3) \<Rightarrow> (Inl e, w3)
           | (Inr _, w3) \<Rightarrow> (Inr (), w3\<lparr>currentTask := previousTask\<rparr>)))"

text \<open>
  The three statements of \<open>runTask\<close> between the transition to \<open>running\<close> and the
  \<open>try\<close>: \<open>task.runCount++\<close>, \<open>_currentTask = task\<close> and the push of the frame.
\<close>

definition runTask_enter :: "zone \<Rightarrow> nat \<Rightarrow> 'u world \<Rightarrow> 'u world" where
  "runTask_enter z tid w =
     pushFrame z
       (w\<lparr>tasks := (tasks w)(tid := (tasks w tid)\<lparr>runCount := runCount (tasks w tid) + 1\<rparr>),
          currentTask := Some tid\<rparr>)"

definition runTask :: "'u env \<Rightarrow> zone \<Rightarrow> nat \<Rightarrow> any \<Rightarrow> any list \<Rightarrow> (any, 'u) js" where
  "runTask env z tid applyThis applyArgs w =
     (let t = tasks w tid in
      if \<not> same_zone (task_zone t) z
      then (Inl (Error (''A task can only be run in the zone of creation! (Creation: ''
                   @ zone_name_or_NO_ZONE (task_zone t) @ ''; Execution: '' @ name z @ '')'')), w)
      else if state t = notScheduled \<and> type t = eventTask then (Inr JUndefined, w)
      else
        (let reEntryGuard = (state t \<noteq> running) in
         case (if reEntryGuard then transitionTo tid running scheduled None w
               else (Inr (), w)) of
           (Inl e, w1) \<Rightarrow> (Inl e, w1)
         | (Inr _, w1) \<Rightarrow>
             try_finally (runTask_try env z tid applyThis applyArgs (runTask_enter z tid w1))
               (runTask_finally env tid reEntryGuard (currentTask w1))))"

text \<open>
  The walk of \<open>scheduleTask\<close>: \<open>newZone = this; while (newZone) { if (newZone ===
  task.zone) throw ...; newZone = newZone.parent }\<close>. The result says whether it throws.
\<close>

fun reschedule_walk :: "zone \<Rightarrow> nat \<Rightarrow> bool" where
  "reschedule_walk (Zone i p n props d) tz =
     (if i = tz then True
      else (case p of None \<Rightarrow> False | Some z \<Rightarrow> reschedule_walk z tz))"

definition reschedule_error :: "zone \<Rightarrow> zone \<Rightarrow> exn" where
  "reschedule_error z tz =
     Error (''can not reschedule task to '' @ name z
            @ '' which is descendants of the original zone '' @ name tz)"

definition scheduleTask_check :: "zone \<Rightarrow> task \<Rightarrow> exn option" where
  "scheduleTask_check z t =
     (case task_zone t of
        None \<Rightarrow> None
      | Some tz \<Rightarrow>
          (if zid tz \<noteq> zid z \<and> reschedule_walk z (zid tz)
           then Some (reschedule_error z tz) else None))"

text \<open>
  \<open>scheduleTask\<close> after the descendant check: the transition to \<open>scheduling\<close>, the
  binding of \<open>_zoneDelegates\<close> and \<open>_zone\<close>, the delegate's \<open>scheduleTask\<close> inside
  \<open>try\<close>, the counter update and the transition to \<open>scheduled\<close>. \<open>scheduleTask_bind\<close>
  is the two assignments \<open>task._zoneDelegates = zoneDelegates\<close> (a new empty array) and
  \<open>task._zone = this\<close>.
\<close>

definition scheduleTask_bind :: "zone \<Rightarrow> nat \<Rightarrow> 'u world \<Rightarrow> 'u world" where
  "scheduleTask_bind z tid w =
     w\<lparr>nextArray := nextArray w + 1,
       tasks := (tasks w)(tid :=
         (tasks w tid)\<lparr>zoneDelegates := Some (nextArray w, []), task_zone := Some z\<rparr>)\<rparr>"

definition scheduleTask_body :: "'u env \<Rightarrow> zone \<Rightarrow> nat \<Rightarrow> (nat, 'u) js" where
  "scheduleTask_body env z tid w =
     (case transitionTo tid scheduling notScheduled None w of
        (Inl e, w1) \<Rightarrow> (Inl e, w1)
      | (Inr _, w1) \<Rightarrow>
          (let a = nextArray w1;
               w2 = scheduleTask_bind z tid w1
           in case ZoneDelegate_scheduleTask env (zoneDelegate z) (zid z) tid w2 of
                (Inl err, w3) \<Rightarrow>
                  (case transitionTo tid unknown scheduling (Some notScheduled) w3 of
                     (Inl e, w4) \<Rightarrow> (Inl e, w4)
                   | (Inr _, w4) \<Rightarrow>
                       (case ZoneDelegate_handleError env (zoneDelegate z) (zid z) err w4 of
                          (Inl e, w5) \<Rightarrow> (Inl e, w5)
                        | (Inr _, w5) \<Rightarrow> (Inl err, w5)))
              | (Inr task', w3) \<Rightarrow>
                  (case (if map_option fst (zoneDelegates (tasks w3 task')) = Some a
                         then Zone_updateTaskCount env task' 1 w3 else (Inr (), w3)) of
                     (Inl e, w4) \<Rightarrow> (Inl e, w4)
                   | (Inr _, w4) \<Rightarrow>
                       (case (if state (tasks w4 task') = scheduling
                              then transitionTo task' scheduled scheduling None w4
                              else (Inr (), w4)) of
                          (Inl e, w5) \<Rightarrow> (Inl e, w5)
                        | (Inr _, w5) \<Rightarrow> (Inr task', w5)))))"

definition scheduleTask :: "'u env \<Rightarrow> zone \<Rightarrow> nat \<Rightarrow> (nat, 'u) js" where
  "scheduleTask env z tid w =
     (case scheduleTask_check z (tasks w tid) of
        Some e \<Rightarrow> (Inl e, w)
      | None \<Rightarrow> scheduleTask_body env z tid w)"

definition cancelTask :: "'u env \<Rightarrow> zone \<Rightarrow> nat \<Rightarrow> (nat, 'u) js" where
  "cancelTask env z tid w =
     (let t = tasks w tid in
      if \<not> same_zone (task_zone t) z
      then (Inl (Error (''A task can only be cancelled in the zone of creation! (Creation: ''
                   @ zone_name_or_NO_ZONE (task_zone t) @ ''; Execution: '' @ name z @ '')'')), w)
      else
        (case transitionTo tid canceling scheduled (Some running) w of
           (Inl e, w1) \<Rightarrow> (Inl e, w1)
         | (Inr _, w1) \<Rightarrow>
             (case ZoneDelegate_cancelTask env (zoneDelegate z) (zid z) tid w1 of
                (Inl err, w2) \<Rightarrow>
                  (case transitionTo tid unknown canceling None w2 of
                     (Inl e, w3) \<Rightarrow> (Inl e, w3)
                   | (Inr _, w3) \<Rightarrow>
                       (case ZoneDelegate_handleError env (zoneDelegate z) (zid z) err w3 of
                          (Inl e, w4) \<Rightarrow> (Inl e, w4)
                        | (Inr _, w4) \<Rightarrow> (Inl err, w4)))
              | (Inr _, w2) \<Rightarrow>
                  (case Zone_updateTaskCount env tid (- 1) w2 of
                     (Inl e, w3) \<Rightarrow> (Inl e, w3)
                   | (Inr _, w3) \<Rightarrow>
                       (case transitionTo tid notScheduled canceling None w3 of
                          (Inl e, w4) \<Rightarrow> (Inl e, w4)
                        | (Inr _, w4) \<Rightarrow>
                            (Inr tid, w4\<lparr>tasks := (tasks w4)(tid :=
                               (tasks w4 tid)\<lparr>runCount := 0\<rparr>)\<rparr>))))))"

section \<open>The microtask queue and the task entry point\<close>

text \<open>
  One iteration of the \<open>for\<close> loop of \<open>drainMicroTaskQueue\<close>:
  \<open>try { task.zone.runTask(task, null, null) } catch (error) { _api.onUnhandledError(error) }\<close>.
\<close>

definition drain_task :: "'u env \<Rightarrow> nat \<Rightarrow> (unit, 'u) js" where
  "drain_task env tid w =
     (case (case task_zone (tasks w tid) of
              None \<Rightarrow> (Inl (TypeError ''Cannot read property runTask of null''), w)
            | Some z \<Rightarrow> runTask env z tid JNull [] w) of
        (Inr _, w1) \<Rightarrow> (Inr (), w1)
      | (Inl error, w1) \<Rightarrow>
          (case onUnhandledError env error w1 of
             (Inl e, w2) \<Rightarrow> (Inl e, w2)
           | (Inr _, w2) \<Rightarrow> (Inr (), w2)))"

fun drain_queue :: "'u env \<Rightarrow> nat list \<Rightarrow> (unit, 'u) js" where
  "drain_queue env [] w = (Inr (), w)"
| "drain_queue env (tid # queue) w =
     (case drain_task env tid w of
        (Inl e, w1) \<Rightarrow> (Inl e, w1)
      | (Inr _, w1) \<Rightarrow> drain_queue env queue w1)"

text \<open>
  The \<open>while (_microTaskQueue.length)\<close> loop. It runs for as long as tasks keep
  enqueueing microtasks, so it takes fuel: \<open>None\<close> means the fuel ran out.
\<close>

fun drain_loop :: "nat \<Rightarrow> 'u env \<Rightarrow> 'u world \<Rightarrow> ((exn + unit) \<times> 'u world) option" where
  "drain_loop 0 env w = None"
| "drain_loop (Suc n) env w =
     (if length (microTaskQueue w) \<noteq> 0
      then (case drain_queue env (microTaskQueue w) (w\<lparr>microTaskQueue := []\<rparr>) of
              (Inl e, w1) \<Rightarrow> Some (Inl e, w1)
            | (Inr _, w1) \<Rightarrow> drain_loop n env w1)
      else Some (Inr (), w))"

definition drainMicroTaskQueue ::
  "nat \<Rightarrow> 'u env \<Rightarrow> 'u world \<Rightarrow> ((exn + unit) \<times> 'u world) option" where
  "drainMicroTaskQueue fuel env w =
     (if \<not> isDrainingMicrotaskQueue w
      then (case drain_loop fuel env (w\<lparr>isDrainingMicrotaskQueue := True\<rparr>) of
              None \<Rightarrow> None
            | Some (Inl e, w1) \<Rightarrow> Some (Inl e, w1)
            | Some (Inr _, w1) \<Rightarrow>
                (case microtaskDrainDone env w1 of
                   (Inl e, w2) \<Rightarrow> Some (Inl e, w2)
                 | (Inr _, w2) \<Rightarrow> Some (Inr (), w2\<lparr>isDrainingMicrotaskQueue := False\<rparr>)))
      else Some (Inr (), w))"

text \<open>
  The static \<open>ZoneTask.invokeTask(task, target, args)\<close>, which every \<open>invoke\<close> thunk
  enters with its task. The \<open>finally\<close> block drains the queue when this is the outermost
  task frame and then decrements the frame counter. \<open>invokeTask_enter\<close> is the state
  after \<open>_numberOfNestedTaskFrames++\<close> and \<open>task.runCount++\<close>.
\<close>

definition invokeTask_enter :: "nat \<Rightarrow> 'u world \<Rightarrow> 'u world" where
  "invokeTask_enter tid w =
     w\<lparr>numberOfNestedTaskFrames := numberOfNestedTaskFrames w + 1,
       tasks := (tasks w)(tid := (tasks w tid)\<lparr>runCount := runCount (tasks w tid) + 1\<rparr>)\<rparr>"

definition ZoneTask_invokeTask ::
  "nat \<Rightarrow> 'u env \<Rightarrow> nat \<Rightarrow> any \<Rightarrow> any list \<Rightarrow> 'u world \<Rightarrow> ((exn + any) \<times> 'u world) option" where
  "ZoneTask_invokeTask fuel env tid target args w =
     (case (case task_zone (tasks (invokeTask_enter tid w) tid) of
              None \<Rightarrow> (Inl (TypeError ''Cannot read property runTask of null''),
                        invokeTask_enter tid w)
            | Some z \<Rightarrow> runTask env z tid target args (invokeTask_enter tid w)) of
        (r, w3) \<Rightarrow>
          (case (if numberOfNestedTaskFrames w3 = 1 then drainMicroTaskQueue fuel env w3
                 else Some (Inr (), w3)) of
             None \<Rightarrow> None
           | Some (Inl e, w4) \<Rightarrow> Some (Inl e, w4)
           | Some (Inr _, w4) \<Rightarrow>
               Some (r, w4\<lparr>numberOfNestedTaskFrames := numberOfNestedTaskFrames w4 - 1\<rparr>)))"

section \<open>Example zones, tasks and user code\<close>

text \<open>
  The root zone \<open>new Zone(null, null)\<close>, and two zones forked below it with specs that
  define no hook: \<open>zoneA = root.fork({name: 'A', properties: {k: 1}})\<close> and
  \<open>zoneB = zoneA.fork({name: 'B'})\<close>.
\<close>

definition plain_delegate :: "nat \<Rightarrow> zoneDelegate option \<Rightarrow> zoneDelegate" where
  "plain_delegate i p =
     ZoneDelegate i p None None (map_option zone p) None None (map_option zone p)
       None None (map_option zone p) None None (map_option zone p)
       None None (map_option zone p) None None None"

definition plain_spec :: "nat \<Rightarrow> string \<Rightarrow> propsObj option \<Rightarrow> zoneSpecObj" where
  "plain_spec r n ps =
     \<lparr>zsRef = r, zsName = n, zsProperties = ps, zsOnFork = False, zsOnIntercept = False,
      zsOnInvoke = False, zsOnHandleError = False, zsOnScheduleTask = False,
      zsOnInvokeTask = False, zsOnCancelTask = False, zsOnHasTask = False\<rparr>"

definition rootZone :: zone where
  "rootZone = Zone 0 None ''<root>'' (PropsObj True Map.empty) (plain_delegate 0 None)"

definition zoneA :: zone where
  "zoneA = Zone 1 (Some rootZone) ''A'' (PropsObj True [''k'' \<mapsto> JNum 1])
             (plain_delegate 1 (Some (zoneDelegate rootZone)))"

definition zoneB :: zone where
  "zoneB = Zone 2 (Some zoneA) ''B'' (PropsObj True Map.empty)
             (plain_delegate 2 (Some (zoneDelegate zoneA)))"

text \<open>
  User code that does nothing: every function returns \<open>undefined\<close>, \<open>onHandleError\<close>
  returns \<open>false\<close>, \<open>onScheduleTask\<close> returns the task it was given.
\<close>

definition idle_env :: "'u env" where
  "idle_env =
     \<lparr>applyFn = (\<lambda>f this args w. (Inr JUndefined, w)),
      callTaskFn = (\<lambda>f tid w. (Inr JUndefined, w)),
      onInvoke = (\<lambda>k dl cz tz cb this args w. (Inr JUndefined, w)),
      onHandleError = (\<lambda>k dl cz tz e w. (Inr False, w)),
      onScheduleTask = (\<lambda>k dl cz tz tid w. (Inr (Some tid), w)),
      onInvokeTask = (\<lambda>k dl cz tz tid this args w. (Inr JUndefined, w)),
      onCancelTask = (\<lambda>k dl cz tz tid w. (Inr JUndefined, w)),
      onHasTask = (\<lambda>k dl cz tz st w. (Inr JUndefined, w)),
      onUnhandledError = (\<lambda>e w. (Inr JUndefined, w)),
      microtaskDrainDone = (\<lambda>w. (Inr JUndefined, w))\<rparr>"

text \<open>
  The state at module load, with every task reference denoting a fresh, unscheduled
  macrotask \<open>new ZoneTask(macroTask, 't', f0, undefined, f1, f2)\<close>.
\<close>

definition fresh_task :: task where
  "fresh_task = new_ZoneTask macroTask ''t'' 0 None (Some 1) (Some 2)"

definition initial_world :: "unit world" where
  "initial_world =
     \<lparr>tasks = (\<lambda>tid. fresh_task), taskCounts = (\<lambda>z ty. 0), currentZoneFrame = [rootZone],
      currentTask = None, numberOfNestedTaskFrames = 0, microTaskQueue = [],
      isDrainingMicrotaskQueue = False, drainRequests = 0, nextArray = 0, user = ()\<rparr>"

text \<open>
  \<open>zoneP = root.fork({name: 'P', properties: {hasOwnProperty: 1, k: 2}})\<close> and
  \<open>zoneQ = zoneP.fork({name: 'Q'})\<close>. A zone is plain when its properties object
  inherits from \<open>Object.prototype\<close> and has no own key \<open>hasOwnProperty\<close>.
\<close>

definition shadowing_props :: propsObj where
  "shadowing_props = PropsObj True [''hasOwnProperty'' \<mapsto> JNum 1, ''k'' \<mapsto> JNum 2]"

definition zoneP :: zone where
  "zoneP = Zone 6 (Some rootZone) ''P'' shadowing_props
             (plain_delegate 6 (Some (zoneDelegate rootZone)))"

definition zoneQ :: zone where
  "zoneQ = Zone 7 (Some zoneP) ''Q'' (PropsObj True Map.empty)
             (plain_delegate 7 (Some (zoneDelegate zoneP)))"

definition plain_props :: "zone \<Rightarrow> bool" where
  "plain_props z =
     (inheritsObject (properties z) \<and> ownProps (properties z) ''hasOwnProperty'' = None)"

text \<open>
  "The receiver is a proper descendant of \<open>task.zone\<close>": \<open>task.zone\<close> is set, is not
  the receiver, and is on the parent chain of the receiver.
\<close>

definition proper_descendant :: "zone \<Rightarrow> zone option \<Rightarrow> bool" where
  "proper_descendant z tzo =
     (case tzo of
        None \<Rightarrow> False
      | Some tz \<Rightarrow> zid tz \<noteq> zid z \<and> zid tz \<in> set (map zid (parent_chain z)))"

text \<open>The initial state with every task reference bound to zone \<open>z\<close>.\<close>

definition owned_by :: "zone \<Rightarrow> unit world" where
  "owned_by z = initial_world\<lparr>tasks := (\<lambda>tid. fresh_task\<lparr>task_zone := Some z\<rparr>)\<rparr>"

text \<open>
  \<open>zoneH = root.fork({name: 'H', onHasTask: h})\<close>: its delegate counts tasks, so the three
  task hooks go through \<open>DELEGATE_ZS\<close>.
\<close>

definition hasTask_spec :: zoneSpecObj where
  "hasTask_spec = (plain_spec 7 ''H'' None)\<lparr>zsOnHasTask := True\<rparr>"

definition zoneH :: zone where
  "zoneH = Zone 3 (Some rootZone) ''H'' (PropsObj True Map.empty)
     (ZoneDelegate 3 (Some (zoneDelegate rootZone))
        None None (Some 0) None None (Some 0)
        (Some DELEGATE_ZS) (Some (zoneDelegate rootZone)) (Some 3)
        (Some DELEGATE_ZS) (Some (zoneDelegate rootZone)) (Some 3)
        (Some DELEGATE_ZS) (Some (zoneDelegate rootZone)) (Some 3)
        (Some (ZoneSpec 7)) (Some (zoneDelegate rootZone)) (Some 3))"

text \<open>
  User code whose \<open>onHasTask\<close> hook pushes the target zone and the state it is given
  onto a list, as in \<open>onHasTask: (_, _, target, s) => calls.push([target, s])\<close>; every
  other function does nothing.
\<close>

definition recorder_env :: "(nat \<times> hasTaskState) list env" where
  "recorder_env =
     idle_env\<lparr>onHasTask := (\<lambda>k dl cz tz st w. (Inr JUndefined, w\<lparr>user := user w @ [(tz, st)]\<rparr>))\<rparr>"

definition recorder_world :: "(nat \<times> hasTaskState) list world" where
  "recorder_world =
     \<lparr>tasks = (\<lambda>tid. fresh_task), taskCounts = (\<lambda>z ty. 0), currentZoneFrame = [rootZone],
      currentTask = None, numberOfNestedTaskFrames = 0, microTaskQueue = [],
      isDrainingMicrotaskQueue = False, drainRequests = 0, nextArray = 0, user = []\<rparr>"

text \<open>
  The state after the store \<open>counts[type] = prev + count\<close> of a delegate, and the
  \<open>HasTaskState\<close> built from the stored counters.
\<close>

definition store_count :: "zoneDelegate \<Rightarrow> taskType \<Rightarrow> int \<Rightarrow> 'u world \<Rightarrow> 'u world" where
  "store_count d ty count w =
     w\<lparr>taskCounts := (taskCounts w)(zone d :=
          (taskCounts w (zone d))(ty := taskCounts w (zone d) ty + count))\<rparr>"

definition snapshot :: "zoneDelegate \<Rightarrow> taskType \<Rightarrow> 'u world \<Rightarrow> hasTaskState" where
  "snapshot d ty w =
     \<lparr>hasMicroTask = 0 < taskCounts w (zone d) microTask,
      hasMacroTask = 0 < taskCounts w (zone d) macroTask,
      hasEventTask = 0 < taskCounts w (zone d) eventTask,
      change = ty\<rparr>"

text \<open>The invariant of the counters: none is negative.\<close>

definition counts_nonneg :: "'u world \<Rightarrow> bool" where
  "counts_nonneg w = (\<forall>z ty. 0 \<le> taskCounts w z ty)"

text \<open>
  Whether a call of \<open>_updateTaskCount\<close> delivers a notification to the recording hook.
\<close>

definition fires_hasTask ::
  "zoneDelegate \<Rightarrow> taskType \<Rightarrow> int \<Rightarrow> (nat \<times> hasTaskState) list world \<Rightarrow> bool" where
  "fires_hasTask d ty count w =
     (user (snd (ZoneDelegate_updateTaskCount recorder_env d ty count w)) \<noteq> user w)"

text \<open>
  \<open>zoneE = root.fork({name: 'z', onHandleError: () => false})\<close>, and user code whose
  callbacks throw \<open>new Error('x')\<close>.
\<close>

definition handler_spec :: zoneSpecObj where
  "handler_spec = (plain_spec 5 ''z'' None)\<lparr>zsOnHandleError := True\<rparr>"

definition zoneE :: zone where
  "zoneE = Zone 4 (Some rootZone) ''z'' (PropsObj True Map.empty)
     (ZoneDelegate 4 (Some (zoneDelegate rootZone))
        None None (Some 0)
        (Some (ZoneSpec 5)) (Some (zoneDelegate rootZone)) (Some 4)
        None None (Some 0) None None (Some 0) None None (Some 0)
        None None None)"

definition throwing_env :: "unit env" where
  "throwing_env = idle_env\<lparr>applyFn := (\<lambda>f this args w. (Inl (Error ''x''), w))\<rparr>"

text \<open>
  A macrotask scheduled in \<open>zoneA\<close> by
  \<open>task = zoneA.scheduleMacroTask('t', cb, undefined, noop, noop)\<close>, whose callback is
  \<open>cb = () => { zoneA.cancelTask(task); zoneA.scheduleTask(task) }\<close>.
\<close>

definition reschedule_env :: "unit env" where
  "reschedule_env =
     idle_env\<lparr>applyFn := (\<lambda>f this args w.
        (case cancelTask idle_env zoneA 0 w of
           (Inl e, w1) \<Rightarrow> (Inl e, w1)
         | (Inr _, w1) \<Rightarrow>
             (case scheduleTask idle_env zoneA 0 w1 of
                (Inl e, w2) \<Rightarrow> (Inl e, w2)
              | (Inr _, w2) \<Rightarrow> (Inr JUndefined, w2))))\<rparr>"

definition scheduled_world :: "unit world" where
  "scheduled_world = snd (scheduleTask idle_env zoneA 0 initial_world)"

text \<open>
  An event task scheduled in \<open>zoneA\<close>; the state in which its callback starts when
  \<open>runTask\<close> runs it; and a macrotask scheduled in \<open>zoneH\<close>, which counts it.
\<close>

definition event_task :: task where
  "event_task = new_ZoneTask eventTask ''e'' 0 None (Some 1) (Some 2)"

definition event_world :: "unit world" where
  "event_world = snd (scheduleTask idle_env zoneA 0 (initial_world\<lparr>tasks := (\<lambda>tid. event_task)\<rparr>))"

definition running_event_world :: "unit world" where
  "running_event_world =
     runTask_enter zoneA 0 (snd (transitionTo 0 running scheduled None event_world))"

definition counted_world :: "(nat \<times> hasTaskState) list world" where
  "counted_world = snd (scheduleTask recorder_env zoneH 0 recorder_world)"

text \<open>
  A delegate's notification is silent when it returns and changes nothing but the
  user's own state.
\<close>

definition silent_hasTask :: "'u env \<Rightarrow> zoneDelegate \<Rightarrow> bool" where
  "silent_hasTask env d =
     (\<forall>st v. \<exists>u. ZoneDelegate_hasTask env d (zone d) st v = (Inr (), v\<lparr>user := u\<rparr>))"

text \<open>
  The number of entries of the list \<open>ds\<close> that are the delegate of zone \<open>z\<close>; and the
  counters with the counter of \<open>ty\<close> lower, or higher, by that number for every zone.
\<close>

definition entries :: "zoneDelegate list \<Rightarrow> nat \<Rightarrow> int" where
  "entries ds z = int (count_list (map zone ds) z)"

definition decrement_counts ::
  "taskType \<Rightarrow> zoneDelegate list \<Rightarrow> (nat \<Rightarrow> taskType \<Rightarrow> int) \<Rightarrow> nat \<Rightarrow> taskType \<Rightarrow> int" where
  "decrement_counts ty ds counts = (\<lambda>z. (counts z)(ty := counts z ty - entries ds z))"

definition increment_counts ::
  "taskType \<Rightarrow> zoneDelegate list \<Rightarrow> (nat \<Rightarrow> taskType \<Rightarrow> int) \<Rightarrow> nat \<Rightarrow> taskType \<Rightarrow> int" where
  "increment_counts ty ds counts = (\<lambda>z. (counts z)(ty := counts z ty + entries ds z))"

text \<open>
  The macrotask of \<open>scheduled_world\<close> with the callback
  \<open>cb = () => { if (first) { first = false; zoneA.runTask(task) } }\<close>: its first run
  runs the task once more.
\<close>

definition reentering_env :: "unit env" where
  "reentering_env =
     idle_env\<lparr>applyFn := (\<lambda>f this args w. runTask idle_env zoneA 0 JUndefined [] w)\<rparr>"

text \<open>
  The user's code of a task leaves the task alone when the delegate's \<open>invokeTask\<close>,
  with the error handling around it, returns the task object and the frame stack as it
  found them.
\<close>

definition leaves_task :: "'u env \<Rightarrow> zone \<Rightarrow> nat \<Rightarrow> any \<Rightarrow> any list \<Rightarrow> bool" where
  "leaves_task env z tid applyThis applyArgs =
     (\<forall>v. tasks (snd (guarded env z (ZoneDelegate_invokeTask env (zoneDelegate z) (zid z)
                          tid applyThis applyArgs v))) tid = tasks v tid
          \<and> currentZoneFrame (snd (guarded env z (ZoneDelegate_invokeTask env (zoneDelegate z)
                          (zid z) tid applyThis applyArgs v))) = currentZoneFrame v)"

text \<open>
  \<open>zoneS = root.fork({name: 'S', onScheduleTask: () => { throw new Error('no') },
  onHasTask: h})\<close> and its user code.
\<close>

definition refusing_spec :: zoneSpecObj where
  "refusing_spec = (plain_spec 9 ''S'' None)\<lparr>zsOnScheduleTask := True, zsOnHasTask := True\<rparr>"

definition zoneS :: zone where
  "zoneS = Zone 5 (Some rootZone) ''S'' (PropsObj True Map.empty)
     (ZoneDelegate 5 (Some (zoneDelegate rootZone))
        None None (Some 0) None None (Some 0)
        (Some (ZoneSpec 9)) (Some (zoneDelegate rootZone)) (Some 5)
        (Some DELEGATE_ZS) (Some (zoneDelegate rootZone)) (Some 5)
        (Some DELEGATE_ZS) (Some (zoneDelegate rootZone)) (Some 5)
        (Some (ZoneSpec 9)) (Some (zoneDelegate rootZone)) (Some 5))"

definition refusing_env :: "(nat \<times> hasTaskState) list env" where
  "refusing_env =
     recorder_env\<lparr>onScheduleTask := (\<lambda>k dl cz tz tid w. (Inl (Error ''no''), w))\<rparr>"

text \<open>
  The two external hooks of the drain return normally, as the \<open>noop\<close> they default to
  does.
\<close>

definition hooks_return :: "'u env \<Rightarrow> bool" where
  "hooks_return env =
     ((\<forall>e v. \<exists>x. fst (onUnhandledError env e v) = Inr x)
      \<and> (\<forall>v. \<exists>x. fst (microtaskDrainDone env v) = Inr x))"

text \<open>The state after one iteration of the \<open>for\<close> loop of the drain.\<close>

definition drain_step :: "'u env \<Rightarrow> 'u world \<Rightarrow> nat \<Rightarrow> 'u world" where
  "drain_step env v tid = snd (drain_task env tid v)"

text \<open>
  One pass of the \<open>while\<close> loop of the drain: the queue is swapped for an empty one and
  the tasks it held are run in order.
\<close>

definition drain_pass :: "'u env \<Rightarrow> 'u world \<Rightarrow> 'u world" where
  "drain_pass env v = foldl (drain_step env) (v\<lparr>microTaskQueue := []\<rparr>) (microTaskQueue v)"

text \<open>
  Three microtasks \<open>new ZoneTask(microTask, 'm', f, undefined, undefined, undefined)\<close>
  with callbacks \<open>f1 = () => { log.push('a'); zoneA.scheduleTask(task3); throw new
  Error('boom') }\<close>, \<open>f2 = () => log.push('b')\<close> and \<open>f3 = () => log.push('c')\<close>; the hooks
  \<open>onUnhandledError\<close> and \<open>microtaskDrainDone\<close> push \<open>'unhandled'\<close> and \<open>'done'\<close>. In
  \<open>queued_world\<close> the first two tasks have been scheduled in \<open>zoneA\<close>.
\<close>

definition micro_task :: "nat \<Rightarrow> task" where
  "micro_task cb = new_ZoneTask microTask ''m'' cb None None None"

definition logging_env :: "string list env" where
  "logging_env =
     idle_env\<lparr>
       applyFn := (\<lambda>f this args w.
         if f = 1 then
           (case scheduleTask idle_env zoneA 3 (w\<lparr>user := user w @ [''a'']\<rparr>) of
              (Inl e, w1) \<Rightarrow> (Inl e, w1)
            | (Inr _, w1) \<Rightarrow> (Inl (Error ''boom''), w1))
         else if f = 2 then (Inr JUndefined, w\<lparr>user := user w @ [''b'']\<rparr>)
         else (Inr JUndefined, w\<lparr>user := user w @ [''c'']\<rparr>)),
       onUnhandledError := (\<lambda>e w. (Inr JUndefined, w\<lparr>user := user w @ [''unhandled'']\<rparr>)),
       microtaskDrainDone := (\<lambda>w. (Inr JUndefined, w\<lparr>user := user w @ [''done'']\<rparr>))\<rparr>"

definition queued_world :: "string list world" where
  "queued_world =
     snd (scheduleTask idle_env zoneA 2
       (snd (scheduleTask idle_env zoneA 1
          \<lparr>tasks = micro_task, taskCounts = (\<lambda>z ty. 0), currentZoneFrame = [rootZone],
           currentTask = None, numberOfNestedTaskFrames = 0, microTaskQueue = [],
           isDrainingMicrotaskQueue = False, drainRequests = 0, nextArray = 0, user = []\<rparr>)))"

section \<open>The example zones are what the constructors build\<close>

lemma rootZone_constructed: "new_Zone 0 None None = Inr rootZone"
  by (simp add: new_Zone_def new_ZoneDelegate_def rootZone_def plain_delegate_def)

lemma zoneA_constructed:
  "new_Zone 1 (Some rootZone) (Some (plain_spec 1 ''A'' (Some (PropsObj True [''k'' \<mapsto> JNum 1]))))
     = Inr zoneA"
  by (simp add: new_Zone_def new_ZoneDelegate_def rootZone_def zoneA_def plain_delegate_def
      plain_spec_def)

lemma zoneB_constructed:
  "new_Zone 2 (Some zoneA) (Some (plain_spec 2 ''B'' None)) = Inr zoneB"
  by (simp add: new_Zone_def new_ZoneDelegate_def zoneA_def zoneB_def plain_delegate_def
      plain_spec_def)

section \<open>Zone.get and Zone.getZoneWith: properties\<close>

lemma zoneP_constructed:
  "new_Zone 6 (Some rootZone) (Some (plain_spec 6 ''P'' (Some shadowing_props))) = Inr zoneP"
  by (simp add: new_Zone_def new_ZoneDelegate_def rootZone_def zoneP_def plain_delegate_def
      plain_spec_def)

lemma zoneQ_constructed:
  "new_Zone 7 (Some zoneP) (Some (plain_spec 7 ''Q'' None)) = Inr zoneQ"
  by (simp add: new_Zone_def new_ZoneDelegate_def zoneP_def zoneQ_def plain_delegate_def
      plain_spec_def)

text \<open>
  On a chain of plain zones, \<open>getZoneWith(K)\<close> returns the first zone from \<open>Z\<close> to the
  root that has the own key \<open>K\<close>, \<open>null\<close> when there is none, and \<open>get(K)\<close> returns that
  zone's \<open>properties[K]\<close>, \<open>undefined\<close> when there is none.
\<close>

lemma getZoneWith_find:
  "\<forall>a \<in> set (parent_chain z). plain_props a \<Longrightarrow>
   getZoneWith z key
     = Inr (find (\<lambda>a. ownProps (properties a) key \<noteq> None) (parent_chain z))"
  by (induction z key rule: getZoneWith.induct)
     (auto simp: hasOwnProperty_def plain_props_def split: option.splits)

lemma get_of_plain_chain:
  assumes "\<forall>a \<in> set (parent_chain z). plain_props a"
  shows "get z key =
           Inr (case find (\<lambda>a. ownProps (properties a) key \<noteq> None) (parent_chain z) of
                  None \<Rightarrow> JUndefined
                | Some a \<Rightarrow> the (ownProps (properties a) key))"
proof -
  have "ownProps (properties a) key \<noteq> None"
    if "find (\<lambda>a. ownProps (properties a) key \<noteq> None) (parent_chain z) = Some a" for a
    using that by (auto simp: find_Some_iff)
  then show ?thesis
    by (auto simp: getZoneWith_find [OF assms] get_def prop_read_def split: option.splits)
qed

text \<open>
  C8. The claim is what the interface documents (\<open>get\<close>: "the value for the key, or
  undefined if not found"; \<open>getZoneWith\<close>: "the Zone which defines the key, null if not
  found"), and the code does it on plain chains (the two lemmas above). It does not for
  \<open>zoneP\<close>, whose properties have the own key \<open>hasOwnProperty\<close>: \<open>zoneP\<close> is the nearest
  zone that owns \<open>k\<close>, with value 2, and both \<open>getZoneWith('k')\<close> and \<open>get('k')\<close> throw a
  \<open>TypeError\<close>, on \<open>zoneP\<close> and on its child \<open>zoneQ\<close>; they throw for a key that no zone
  owns too.
\<close>

theorem getZoneWith_throws_on_shadowed_hasOwnProperty:
  "ownProps (properties zoneP) ''k'' = Some (JNum 2)
   \<and> getZoneWith zoneP ''k''
       = Inl (TypeError ''current._properties.hasOwnProperty is not a function'')
   \<and> get zoneP ''k'' = Inl (TypeError ''current._properties.hasOwnProperty is not a function'')
   \<and> ownProps (properties zoneQ) ''k'' = None
   \<and> getZoneWith zoneQ ''k''
       = Inl (TypeError ''current._properties.hasOwnProperty is not a function'')
   \<and> get zoneQ ''k'' = Inl (TypeError ''current._properties.hasOwnProperty is not a function'')
   \<and> get zoneQ ''x'' = Inl (TypeError ''current._properties.hasOwnProperty is not a function'')"
  by (simp add: get_def hasOwnProperty_def zoneP_def zoneQ_def shadowing_props_def)

text \<open>
  In \<open>zoneB\<close> the key \<open>k\<close> is found in the parent \<open>zoneA\<close>, and a key that no zone of the
  chain has reads \<open>undefined\<close>.
\<close>

lemma get_plain_example:
  "get zoneB ''k'' = Inr (JNum 1) \<and> get zoneB ''x'' = Inr JUndefined
   \<and> getZoneWith zoneB ''x'' = Inr None"
  by (simp add: get_def prop_read_def hasOwnProperty_def zoneB_def zoneA_def rootZone_def)

section \<open>Zone.scheduleTask: the descendant check\<close>

lemma reschedule_walk_chain: "reschedule_walk z i = (i \<in> set (map zid (parent_chain z)))"
  by (induction z i rule: reschedule_walk.induct) (auto split: option.splits)

text \<open>
  C3. \<open>scheduleTask\<close> throws the error whose message starts with "can not reschedule"
  exactly when the receiver is a proper descendant of \<open>task.zone\<close>, and then nothing is
  changed; in every other case the check passes and \<open>scheduleTask\<close> goes on with the
  transition to \<open>scheduling\<close>.
\<close>

theorem scheduleTask_rejects_iff_descendant:
  "(scheduleTask_check z (tasks w tid) \<noteq> None) = proper_descendant z (task_zone (tasks w tid))
   \<and> (proper_descendant z (task_zone (tasks w tid)) \<longrightarrow>
        (\<exists>rest. scheduleTask env z tid w = (Inl (Error (''can not reschedule'' @ rest)), w)))
   \<and> (\<not> proper_descendant z (task_zone (tasks w tid)) \<longrightarrow>
        scheduleTask env z tid w = scheduleTask_body env z tid w)"
  by (auto simp: scheduleTask_def scheduleTask_check_def proper_descendant_def
      reschedule_walk_chain reschedule_error_def split: option.splits)

theorem scheduleTask_rejects_iff_descendant_witness:
  "proper_descendant zoneB (task_zone (tasks (owned_by zoneA) 0))
   \<and> fst (scheduleTask idle_env zoneB 0 (owned_by zoneA)) =
       Inl (Error ''can not reschedule task to B which is descendants of the original zone A'')
   \<and> \<not> proper_descendant zoneA (task_zone (tasks (owned_by zoneB) 0))
   \<and> scheduleTask idle_env zoneA 0 (owned_by zoneB)
       = scheduleTask_body idle_env zoneA 0 (owned_by zoneB)
   \<and> fst (scheduleTask idle_env zoneA 0 (owned_by zoneB)) = Inr 0
   \<and> state (tasks (snd (scheduleTask idle_env zoneA 0 (owned_by zoneB))) 0) = scheduled"
  using scheduleTask_rejects_iff_descendant [of zoneB "owned_by zoneA" 0 idle_env]
    scheduleTask_rejects_iff_descendant [of zoneA "owned_by zoneB" 0 idle_env]
  by (simp add: proper_descendant_def owned_by_def initial_world_def fresh_task_def new_ZoneTask_def
      zoneA_def zoneB_def rootZone_def scheduleTask_def scheduleTask_check_def reschedule_error_def
      scheduleTask_body_def scheduleTask_bind_def transitionTo_def plain_delegate_def idle_env_def
      Zone_updateTaskCount_def ZoneDelegate_scheduleTask.simps)

lemma zoneH_constructed: "new_Zone 3 (Some rootZone) (Some hasTask_spec) = Inr zoneH"
  by (simp add: new_Zone_def new_ZoneDelegate_def rootZone_def zoneH_def plain_delegate_def
      plain_spec_def hasTask_spec_def)

section \<open>ZoneDelegate._updateTaskCount\<close>

lemma updateTaskCount_cases:
  "ZoneDelegate_updateTaskCount env d ty count w =
     (if taskCounts w (zone d) ty + count < 0
      then (Inl (Error ''More tasks executed then were scheduled.''), store_count d ty count w)
      else if taskCounts w (zone d) ty = 0 \<or> taskCounts w (zone d) ty + count = 0
      then ZoneDelegate_hasTask env d (zone d) (snapshot d ty (store_count d ty count w))
             (store_count d ty count w)
      else (Inr (), store_count d ty count w))"
  by (simp add: ZoneDelegate_updateTaskCount_def store_count_def snapshot_def Let_def)

lemma hasTask_own_hook:
  "hasTaskZS d = Some (ZoneSpec k) \<Longrightarrow>
   ZoneDelegate_hasTask recorder_env d tz st w = (Inr (), w\<lparr>user := user w @ [(tz, st)]\<rparr>)"
  by (simp add: ZoneDelegate_hasTask.simps recorder_env_def idle_env_def)

lemma recorder_hasTask_counts:
  "taskCounts (snd (ZoneDelegate_hasTask recorder_env (zoneDelegate zoneH) tz st v)) = taskCounts v"
  by (simp add: ZoneDelegate_hasTask.simps recorder_env_def idle_env_def zoneH_def)

lemma store_count_nonneg:
  "counts_nonneg w \<Longrightarrow> 0 \<le> taskCounts w (zone d) ty + count
     \<Longrightarrow> counts_nonneg (store_count d ty count w)"
  by (simp add: counts_nonneg_def store_count_def)

text \<open>
  C4, as the code has it. A call whose new count is not negative stores the count and
  then, exactly when the previous count was 0 or the new count is 0, calls
  \<open>this.hasTask(this.zone, isEmpty)\<close> with the snapshot of the stored counters; the
  result of the call is the result of that notification, so the notification has run
  when the update returns. A call whose new count is negative throws before any
  notification. The third part observes it with a recording \<open>onHasTask\<close> hook of the
  delegate's own spec: the record grows by the owning zone and the snapshot in the first
  case and stays as it is otherwise.
\<close>

theorem updateTaskCount_notifies:
  "(0 \<le> taskCounts w (zone d) ty + count \<longrightarrow>
      ZoneDelegate_updateTaskCount env d ty count w =
        (if taskCounts w (zone d) ty = 0 \<or> taskCounts w (zone d) ty + count = 0
         then ZoneDelegate_hasTask env d (zone d) (snapshot d ty (store_count d ty count w))
                (store_count d ty count w)
         else (Inr (), store_count d ty count w)))
   \<and> (taskCounts w (zone d) ty + count < 0 \<longrightarrow>
      ZoneDelegate_updateTaskCount env d ty count w =
        (Inl (Error ''More tasks executed then were scheduled.''), store_count d ty count w))
   \<and> (hasTaskZS d = Some (ZoneSpec k) \<longrightarrow>
      user (snd (ZoneDelegate_updateTaskCount recorder_env d ty count v)) =
        user v @ (if 0 \<le> taskCounts v (zone d) ty + count
                     \<and> (taskCounts v (zone d) ty = 0 \<or> taskCounts v (zone d) ty + count = 0)
                  then [(zone d, snapshot d ty (store_count d ty count v))] else []))"
  by (auto simp: updateTaskCount_cases hasTask_own_hook store_count_def)

text \<open>
  Scheduling and then cancelling one macrotask in \<open>zoneH\<close>: two notifications, the first
  with \<open>macroTask: true\<close>, the second with \<open>macroTask: false\<close>; a second task scheduled
  while one is pending notifies nobody.
\<close>

theorem updateTaskCount_notifies_witness:
  "ZoneDelegate_updateTaskCount recorder_env (zoneDelegate zoneH) macroTask 1 recorder_world
     = (Inr (), (store_count (zoneDelegate zoneH) macroTask 1 recorder_world)
          \<lparr>user := [(3, \<lparr>hasMicroTask = False, hasMacroTask = True, hasEventTask = False,
                        change = macroTask\<rparr>)]\<rparr>)
   \<and> user (snd (ZoneDelegate_updateTaskCount recorder_env (zoneDelegate zoneH) macroTask (- 1)
        (store_count (zoneDelegate zoneH) macroTask 1 recorder_world)))
     = [(3, \<lparr>hasMicroTask = False, hasMacroTask = False, hasEventTask = False,
              change = macroTask\<rparr>)]
   \<and> user (snd (ZoneDelegate_updateTaskCount recorder_env (zoneDelegate zoneH) macroTask 1
        (store_count (zoneDelegate zoneH) macroTask 1 recorder_world))) = []"
  using updateTaskCount_notifies [of recorder_world "zoneDelegate zoneH" macroTask 1 recorder_env 7
      recorder_world]
    updateTaskCount_notifies [of recorder_world "zoneDelegate zoneH" macroTask "- 1" recorder_env 7
      "store_count (zoneDelegate zoneH) macroTask 1 recorder_world"]
  by (simp add: zoneH_def recorder_world_def store_count_def snapshot_def recorder_env_def
      idle_env_def ZoneDelegate_updateTaskCount_def ZoneDelegate_hasTask.simps)

text \<open>
  The claim as it is written fails for the call \<open>_updateTaskCount('macroTask', -1)\<close> on a
  delegate whose counter is 0: the previous value is 0, and no notification is
  delivered, because the negative count is rejected first.
\<close>

theorem updateTaskCount_notifies_counterexample:
  "\<not> (fires_hasTask (zoneDelegate zoneH) macroTask (- 1) recorder_world
        = (taskCounts recorder_world (zone (zoneDelegate zoneH)) macroTask = 0
           \<or> taskCounts recorder_world (zone (zoneDelegate zoneH)) macroTask + (- 1) = 0))
   \<and> fst (ZoneDelegate_updateTaskCount recorder_env (zoneDelegate zoneH) macroTask (- 1)
        recorder_world) = Inl (Error ''More tasks executed then were scheduled.'')"
  by (simp add: fires_hasTask_def zoneH_def recorder_world_def ZoneDelegate_updateTaskCount_def
      Let_def)

text \<open>
  A call whose new count would be below zero throws "More tasks executed then were
  scheduled."; every other call keeps all counters non-negative, provided the user's
  hooks run by the notification do.
\<close>

lemma updateTaskCount_keeps_nonneg:
  "(taskCounts w (zone d) ty + count < 0 \<longrightarrow>
      fst (ZoneDelegate_updateTaskCount env d ty count w)
        = Inl (Error ''More tasks executed then were scheduled.''))
   \<and> (counts_nonneg w
        \<and> (\<forall>st v. counts_nonneg v \<longrightarrow>
              counts_nonneg (snd (ZoneDelegate_hasTask env d (zone d) st v)))
        \<and> 0 \<le> taskCounts w (zone d) ty + count \<longrightarrow>
      counts_nonneg (snd (ZoneDelegate_updateTaskCount env d ty count w)))"
  by (simp add: updateTaskCount_cases store_count_nonneg)

text \<open>
  C5. The claim is what the code checks for: a decrement that would make a counter
  negative throws "More tasks executed then were scheduled.". But \<open>const next =
  counts[type] = prev + count\<close> stores the new count before \<open>if (next < 0)\<close> looks at it,
  so the rejected decrement leaves the counter negative. In \<open>zoneH\<close>, with no macrotask
  counted, \<open>_updateTaskCount('macroTask', -1)\<close> throws and leaves the counter at -1; the
  invariant does not hold in that state, and the next \<open>_updateTaskCount('macroTask', 1)\<close>
  brings the counter to 0 and notifies \<open>onHasTask\<close> with \<open>macroTask: false\<close>.
\<close>

theorem updateTaskCount_stores_negative:
  "counts_nonneg recorder_world
   \<and> taskCounts recorder_world 3 macroTask = 0
   \<and> ZoneDelegate_updateTaskCount recorder_env (zoneDelegate zoneH) macroTask (- 1) recorder_world
       = (Inl (Error ''More tasks executed then were scheduled.''),
          store_count (zoneDelegate zoneH) macroTask (- 1) recorder_world)
   \<and> taskCounts (store_count (zoneDelegate zoneH) macroTask (- 1) recorder_world) 3 macroTask
       = - 1
   \<and> \<not> counts_nonneg (store_count (zoneDelegate zoneH) macroTask (- 1) recorder_world)
   \<and> user (snd (ZoneDelegate_updateTaskCount recorder_env (zoneDelegate zoneH) macroTask 1
        (store_count (zoneDelegate zoneH) macroTask (- 1) recorder_world)))
       = [(3, \<lparr>hasMicroTask = False, hasMacroTask = False, hasEventTask = False,
                change = macroTask\<rparr>)]"
proof -
  have zd: "zone (zoneDelegate zoneH) = 3"
    by (simp add: zoneH_def)
  have z: "taskCounts recorder_world 3 macroTask = 0" "counts_nonneg recorder_world"
    by (simp_all add: recorder_world_def counts_nonneg_def)
  have neg: "taskCounts (store_count (zoneDelegate zoneH) macroTask (- 1) recorder_world)
      3 macroTask = - 1"
    by (simp add: store_count_def zd recorder_world_def)
  have "\<not> (0 \<le> taskCounts (store_count (zoneDelegate zoneH) macroTask (- 1) recorder_world)
      3 macroTask)"
    using neg by simp
  then have nn: "\<not> counts_nonneg (store_count (zoneDelegate zoneH) macroTask (- 1) recorder_world)"
    unfolding counts_nonneg_def by blast
  have thr: "ZoneDelegate_updateTaskCount recorder_env (zoneDelegate zoneH) macroTask (- 1)
      recorder_world
       = (Inl (Error ''More tasks executed then were scheduled.''),
          store_count (zoneDelegate zoneH) macroTask (- 1) recorder_world)"
    using z(1) by (simp add: updateTaskCount_cases zd)
  have nxt: "user (snd (ZoneDelegate_updateTaskCount recorder_env (zoneDelegate zoneH) macroTask 1
        (store_count (zoneDelegate zoneH) macroTask (- 1) recorder_world)))
       = [(3, \<lparr>hasMicroTask = False, hasMacroTask = False, hasEventTask = False,
                change = macroTask\<rparr>)]"
    by (simp add: zoneH_def recorder_world_def store_count_def snapshot_def recorder_env_def
        idle_env_def ZoneDelegate_updateTaskCount_def ZoneDelegate_hasTask.simps)
  show ?thesis using z neg nn thr nxt by simp
qed

section \<open>Evaluation of the examples\<close>

lemmas eval_defs =
  scheduleTask_def scheduleTask_check_def scheduleTask_body_def transitionTo_def
  initial_world_def recorder_world_def fresh_task_def new_ZoneTask_def zoneA_def zoneH_def rootZone_def
  plain_delegate_def ZoneDelegate_scheduleTask.simps ZoneDelegate_invokeTask.simps
  ZoneDelegate_hasTask.simps ZoneDelegate_cancelTask.simps
  ZoneDelegate_updateTaskCount_def ZoneDelegate_handleError_def
  idle_env_def recorder_env_def Zone_updateTaskCount_def runTask_try_def runTask_enter_def
  scheduleTask_bind_def pushFrame_def popFrame_def guarded_def isPeriodicData_def same_zone_def
  Let_def

section \<open>Zone.runGuarded\<close>

lemma zoneE_constructed: "new_Zone 4 (Some rootZone) (Some handler_spec) = Inr zoneE"
  by (simp add: new_Zone_def new_ZoneDelegate_def rootZone_def zoneE_def plain_delegate_def
      plain_spec_def handler_spec_def)

text \<open>
  C6. When the callback, invoked through the delegate's \<open>invoke\<close>, throws, the error goes
  to the delegate's \<open>handleError\<close>; if that returns true the error is rethrown from
  \<open>runGuarded\<close>, if it returns false \<open>runGuarded\<close> returns \<open>undefined\<close>; in both cases the
  top frame is popped.
\<close>

theorem runGuarded_routes_error:
  assumes "ZoneDelegate_invoke env (zoneDelegate z) (zid z) cb
             (if applyThis = JUndefined then JNull else applyThis) applyArgs (pushFrame z w)
           = (Inl error, w2)"
    and "ZoneDelegate_handleError env (zoneDelegate z) (zid z) error w2 = (Inr b, w3)"
    and "currentZoneFrame w3 = f # fs"
  shows "runGuarded env z cb applyThis applyArgs w
           = (if b then Inl error else Inr JUndefined, w3\<lparr>currentZoneFrame := fs\<rparr>)"
  using assms by (simp add: runGuarded_def guarded_def try_finally_def popFrame_def)

text \<open>
  \<open>zoneE.runGuarded(() => { throw new Error('x') })\<close> returns \<open>undefined\<close>; in \<open>zoneA\<close>,
  which has no \<open>onHandleError\<close>, the same call rethrows; both leave the state as it was.
\<close>

theorem runGuarded_routes_error_witness:
  "runGuarded throwing_env zoneE 0 JUndefined [] initial_world = (Inr JUndefined, initial_world)
   \<and> runGuarded throwing_env zoneA 0 JUndefined [] initial_world
       = (Inl (Error ''x''), initial_world)"
proof -
  have a: "ZoneDelegate_invoke throwing_env (zoneDelegate zoneE) (zid zoneE) 0
             (if JUndefined = JUndefined then JNull else JUndefined) [] (pushFrame zoneE initial_world)
           = (Inl (Error ''x''), pushFrame zoneE initial_world)"
    by (simp add: ZoneDelegate_invoke_def zoneE_def throwing_env_def)
  have b: "ZoneDelegate_handleError throwing_env (zoneDelegate zoneE) (zid zoneE) (Error ''x'')
             (pushFrame zoneE initial_world) = (Inr False, pushFrame zoneE initial_world)"
    by (simp add: ZoneDelegate_handleError_def zoneE_def throwing_env_def idle_env_def)
  have c: "currentZoneFrame (pushFrame zoneE initial_world) = zoneE # [rootZone]"
    by (simp add: pushFrame_def initial_world_def)
  have a': "ZoneDelegate_invoke throwing_env (zoneDelegate zoneA) (zid zoneA) 0
             (if JUndefined = JUndefined then JNull else JUndefined) [] (pushFrame zoneA initial_world)
           = (Inl (Error ''x''), pushFrame zoneA initial_world)"
    by (simp add: ZoneDelegate_invoke_def zoneA_def throwing_env_def plain_delegate_def)
  have b': "ZoneDelegate_handleError throwing_env (zoneDelegate zoneA) (zid zoneA) (Error ''x'')
             (pushFrame zoneA initial_world) = (Inr True, pushFrame zoneA initial_world)"
    by (simp add: ZoneDelegate_handleError_def zoneA_def plain_delegate_def)
  have c': "currentZoneFrame (pushFrame zoneA initial_world) = zoneA # [rootZone]"
    by (simp add: pushFrame_def initial_world_def)
  have d: "(pushFrame zoneE initial_world)\<lparr>currentZoneFrame := [rootZone]\<rparr> = initial_world"
    "(pushFrame zoneA initial_world)\<lparr>currentZoneFrame := [rootZone]\<rparr> = initial_world"
    by (simp_all add: pushFrame_def initial_world_def)
  show ?thesis
    using runGuarded_routes_error [OF a b c] runGuarded_routes_error [OF a' b' c'] d by simp
qed

section \<open>The zone-frame stack across run, runGuarded and runTask\<close>

lemma scheduled_world_task:
  "tasks scheduled_world 0 = fresh_task\<lparr>task_zone := Some zoneA, zoneDelegates := Some (0, []),
      state := scheduled\<rparr>
   \<and> currentZoneFrame scheduled_world = [rootZone] \<and> currentTask scheduled_world = None
   \<and> taskCounts scheduled_world = (\<lambda>z ty. 0)"
  by (simp add: scheduled_world_def scheduleTask_def scheduleTask_check_def scheduleTask_body_def
      scheduleTask_bind_def transitionTo_def initial_world_def fresh_task_def new_ZoneTask_def zoneA_def
      plain_delegate_def ZoneDelegate_scheduleTask.simps idle_env_def Zone_updateTaskCount_def)


lemma run_pops_frame:
  assumes "ZoneDelegate_invoke env (zoneDelegate z) (zid z) cb applyThis applyArgs (pushFrame z w)
             = (r, w2)"
    and "currentZoneFrame w2 = z # currentZoneFrame w"
  shows "fst (run env z cb applyThis applyArgs w) = r
         \<and> currentZoneFrame (snd (run env z cb applyThis applyArgs w)) = currentZoneFrame w"
  using assms by (simp add: run_def try_finally_def popFrame_def)

lemma runGuarded_pops_frame:
  assumes "guarded env z (ZoneDelegate_invoke env (zoneDelegate z) (zid z) cb
             (if applyThis = JUndefined then JNull else applyThis) applyArgs (pushFrame z w))
             = (r, w2)"
    and "currentZoneFrame w2 = z # currentZoneFrame w"
  shows "fst (runGuarded env z cb applyThis applyArgs w) = r
         \<and> currentZoneFrame (snd (runGuarded env z cb applyThis applyArgs w)) = currentZoneFrame w"
  using assms by (simp add: runGuarded_def try_finally_def popFrame_def)


text \<open>
  C2. \<open>run\<close> and \<open>runGuarded\<close> pop the frame they pushed on both outcomes (the two lemmas
  above). \<open>runTask\<close> pops it after the state bookkeeping of its \<open>finally\<close> block, so it
  does not when that bookkeeping throws: the task of \<open>scheduled_world\<close>, run from the
  root zone, cancels and reschedules itself; the unwinding finds it \<open>scheduled\<close>, the
  transition to \<open>notScheduled\<close> throws, and \<open>runTask\<close> exits with \<open>zoneA\<close> still on top of
  the stack and the task still the current task.
\<close>

theorem runTask_leaves_frame_pushed:
  "currentZoneFrame scheduled_world = [rootZone]
   \<and> state (tasks scheduled_world 0) = scheduled
   \<and> fst (runTask reschedule_env zoneA 0 JUndefined [] scheduled_world)
       = Inl (Error (transition_message
           (tasks (snd (runTask reschedule_env zoneA 0 JUndefined [] scheduled_world)) 0)
           notScheduled running (Some notScheduled)))
   \<and> state (tasks (snd (runTask reschedule_env zoneA 0 JUndefined [] scheduled_world)) 0)
       = scheduled
   \<and> currentZoneFrame (snd (runTask reschedule_env zoneA 0 JUndefined [] scheduled_world))
       = [zoneA, rootZone]
   \<and> currentTask scheduled_world = None
   \<and> currentTask (snd (runTask reschedule_env zoneA 0 JUndefined [] scheduled_world)) = Some 0"
  by (simp add: scheduled_world_def reschedule_env_def runTask_def runTask_finally_def
      try_finally_def cancelTask_def eval_defs)

section \<open>Zone.runTask: the unwinding of the task\<close>

lemma runTask_from_scheduled:
  assumes "same_zone (task_zone (tasks w tid)) z" and "state (tasks w tid) = scheduled"
  shows "runTask env z tid applyThis applyArgs w =
           try_finally
             (runTask_try env z tid applyThis applyArgs
                (runTask_enter z tid (snd (transitionTo tid running scheduled None w))))
             (runTask_finally env tid True (currentTask w))"
  using assms by (simp add: runTask_def transitionTo_def Let_def)

lemma finally_back_to_scheduled:
  assumes "state (tasks w4 tid) = running"
    and "type (tasks w4 tid) = eventTask \<or> isPeriodicData (tasks w4 tid)"
    and "currentZoneFrame w4 = f # fs"
  shows "runTask_finally env tid True prev w4 =
           (Inr (), w4\<lparr>tasks := (tasks w4)(tid := (tasks w4 tid)\<lparr>state := scheduled\<rparr>),
                        currentZoneFrame := fs, currentTask := prev\<rparr>)"
  using assms by (auto simp: runTask_finally_def transitionTo_def popFrame_def Let_def)

lemma silent_update:
  assumes "silent_hasTask env d" and "0 \<le> taskCounts v (zone d) ty + count"
  shows "\<exists>u. ZoneDelegate_updateTaskCount env d ty count v
              = (Inr (), (store_count d ty count v)\<lparr>user := u\<rparr>)"
proof (cases "taskCounts v (zone d) ty = 0 \<or> taskCounts v (zone d) ty + count = 0")
  case True
  obtain u where "ZoneDelegate_hasTask env d (zone d)
      (snapshot d ty (store_count d ty count v)) (store_count d ty count v)
      = (Inr (), (store_count d ty count v)\<lparr>user := u\<rparr>)"
    using assms(1) unfolding silent_hasTask_def by blast
  with True assms(2) show ?thesis by (auto simp: updateTaskCount_cases)
next
  case False
  have "(store_count d ty count v)\<lparr>user := user v\<rparr> = store_count d ty count v"
    by (simp add: store_count_def)
  with False assms(2) show ?thesis
    by (auto simp: updateTaskCount_cases intro!: exI [of _ "user v"])
qed

lemma entries_Cons:
  "entries (d # ds) z = (if zone d = z then entries ds z + 1 else entries ds z)"
  by (simp add: entries_def)

lemma entries_nonneg: "0 \<le> entries ds z"
  by (simp add: entries_def)

lemma entries_pos: "d \<in> set ds \<Longrightarrow> 1 \<le> entries ds (zone d)"
  by (induction ds) (auto simp: entries_Cons entries_nonneg intro: add_increasing2)

lemma loop_shifts:
  assumes "\<forall>d \<in> set ds. silent_hasTask env d"
    and "\<forall>d \<in> set ds. \<forall>j. 1 \<le> j \<and> j \<le> entries ds (zone d)
            \<longrightarrow> 0 \<le> taskCounts v (zone d) ty + count * j"
  shows "\<exists>u. updateTaskCount_loop env ty count ds v
              = (Inr (), v\<lparr>taskCounts := (\<lambda>z. (taskCounts v z)(ty :=
                                taskCounts v z ty + count * entries ds z)), user := u\<rparr>)"
  using assms
proof (induction ds arbitrary: v)
  case Nil
  have "v\<lparr>taskCounts := taskCounts v, user := user v\<rparr> = v" by simp
  then show ?case by (auto simp: entries_def intro!: exI [of _ "user v"])
next
  case (Cons d ds)
  have "1 \<le> entries (d # ds) (zone d)" by (simp add: entries_Cons entries_nonneg)
  with Cons.prems(2) have "0 \<le> taskCounts v (zone d) ty + count * 1"
    by (metis list.set_intros(1) order_refl)
  then obtain u where u: "ZoneDelegate_updateTaskCount env d ty count v
              = (Inr (), (store_count d ty count v)\<lparr>user := u\<rparr>)"
    using silent_update [of env d v ty count] Cons.prems(1) by auto
  let ?v1 = "(store_count d ty count v)\<lparr>user := u\<rparr>"
  have pre: "\<forall>d' \<in> set ds. \<forall>j. 1 \<le> j \<and> j \<le> entries ds (zone d')
            \<longrightarrow> 0 \<le> taskCounts ?v1 (zone d') ty + count * j"
  proof (intro ballI allI impI)
    fix d' j assume d': "d' \<in> set ds" and j: "1 \<le> j \<and> j \<le> entries ds (zone d')"
    show "0 \<le> taskCounts ?v1 (zone d') ty + count * j"
    proof (cases "zone d' = zone d")
      case True
      with j have "1 \<le> j + 1 \<and> j + 1 \<le> entries (d # ds) (zone d')"
        by (simp add: entries_Cons)
      with Cons.prems(2) d' have "0 \<le> taskCounts v (zone d') ty + count * (j + 1)"
        by (meson list.set_intros(2))
      with True show ?thesis by (simp add: store_count_def algebra_simps)
    next
      case False
      with j have "1 \<le> j \<and> j \<le> entries (d # ds) (zone d')"
        by (simp add: entries_Cons)
      with Cons.prems(2) d' have "0 \<le> taskCounts v (zone d') ty + count * j"
        by (meson list.set_intros(2))
      with False show ?thesis by (simp add: store_count_def)
    qed
  qed
  obtain u' where u': "updateTaskCount_loop env ty count ds ?v1
      = (Inr (), ?v1\<lparr>taskCounts := (\<lambda>z. (taskCounts ?v1 z)(ty :=
                          taskCounts ?v1 z ty + count * entries ds z)), user := u'\<rparr>)"
    using Cons.IH [of ?v1] Cons.prems(1) pre by (meson list.set_intros(2))
  have eq: "(\<lambda>z. (taskCounts ?v1 z)(ty := taskCounts ?v1 z ty + count * entries ds z))
            = (\<lambda>z. (taskCounts v z)(ty := taskCounts v z ty + count * entries (d # ds) z))"
    by (auto simp: store_count_def fun_eq_iff entries_Cons algebra_simps)
  have step: "updateTaskCount_loop env ty count (d # ds) v
              = updateTaskCount_loop env ty count ds ?v1"
    by (simp add: u)
  have same: "?v1\<lparr>taskCounts := F, user := u'\<rparr> = v\<lparr>taskCounts := F, user := u'\<rparr>" for F
    by (simp add: store_count_def)
  show ?case
    unfolding step u' eq same by (rule exI [of _ u']) (rule refl)
qed

lemma loop_decrements:
  assumes "\<forall>d \<in> set ds. silent_hasTask env d"
    and "\<forall>d \<in> set ds. entries ds (zone d) \<le> taskCounts v (zone d) ty"
  shows "\<exists>u. updateTaskCount_loop env ty (- 1) ds v
              = (Inr (), v\<lparr>taskCounts := decrement_counts ty ds (taskCounts v), user := u\<rparr>)"
proof -
  have "\<forall>d \<in> set ds. \<forall>j. 1 \<le> j \<and> j \<le> entries ds (zone d)
            \<longrightarrow> 0 \<le> taskCounts v (zone d) ty + (- 1) * j"
    using assms(2) by fastforce
  from loop_shifts [OF assms(1) this] show ?thesis
    by (simp add: decrement_counts_def)
qed

lemma loop_increments:
  assumes "\<forall>d \<in> set ds. silent_hasTask env d"
    and "\<forall>d \<in> set ds. 0 \<le> taskCounts v (zone d) ty"
  shows "\<exists>u. updateTaskCount_loop env ty 1 ds v
              = (Inr (), v\<lparr>taskCounts := increment_counts ty ds (taskCounts v), user := u\<rparr>)"
proof -
  have "\<forall>d \<in> set ds. \<forall>j. 1 \<le> j \<and> j \<le> entries ds (zone d)
            \<longrightarrow> 0 \<le> taskCounts v (zone d) ty + 1 * j"
    using assms(2) by fastforce
  from loop_shifts [OF assms(1) this] show ?thesis
    by (simp add: increment_counts_def)
qed

lemma decrement_increment:
  "decrement_counts ty ds (increment_counts ty ds counts) = counts"
  by (simp add: decrement_counts_def increment_counts_def fun_eq_iff)


lemma finally_one_shot:
  assumes "state (tasks w4 tid) = running"
    and "type (tasks w4 tid) \<noteq> eventTask" and "\<not> isPeriodicData (tasks w4 tid)"
    and "currentZoneFrame w4 = f # fs"
    and "zoneDelegates (tasks w4 tid) = Some (a, ds)"
    and "\<forall>d \<in> set ds. silent_hasTask env d"
    and "\<forall>d \<in> set ds. entries ds (zone d) \<le> taskCounts w4 (zone d) (type (tasks w4 tid))"
  shows "\<exists>u. runTask_finally env tid True prev w4 =
           (Inr (), w4\<lparr>tasks := (tasks w4)(tid := (tasks w4 tid)\<lparr>runCount := 0,
                           state := notScheduled, zoneDelegates := None\<rparr>),
                        taskCounts := decrement_counts (type (tasks w4 tid)) ds (taskCounts w4),
                        currentZoneFrame := fs, currentTask := prev, user := u\<rparr>)"
proof -
  let ?v = "w4\<lparr>tasks := (tasks w4)(tid := (tasks w4 tid)\<lparr>runCount := 0, zoneDelegates := None\<rparr>)\<rparr>"
  have "\<forall>d \<in> set ds. entries ds (zone d) \<le> taskCounts ?v (zone d) (type (tasks w4 tid))"
    using assms(7) by simp
  then obtain u where u: "updateTaskCount_loop env (type (tasks w4 tid)) (- 1) ds ?v
      = (Inr (), ?v\<lparr>taskCounts := decrement_counts (type (tasks w4 tid)) ds (taskCounts ?v),
                    user := u\<rparr>)"
    using loop_decrements [of ds env ?v "type (tasks w4 tid)"] assms(6) by blast
  show ?thesis
    using assms(1-5) u
    by (auto simp: runTask_finally_def Zone_updateTaskCount_def transitionTo_def popFrame_def Let_def
        intro!: exI [of _ u] world.equality)
qed

lemma scheduleTask_result:
  assumes chk: "scheduleTask_check z (tasks w0 tid) = None"
    and st: "state (tasks w0 tid) = notScheduled"
    and dl: "ZoneDelegate_scheduleTask env (zoneDelegate z) (zid z) tid
               (scheduleTask_bind z tid (snd (transitionTo tid scheduling notScheduled None w0)))
             = (Inr tid, w3)"
    and st3: "state (tasks w3 tid) = scheduling"
    and zd: "zoneDelegates (tasks w3 tid) = Some (nextArray w0, ds)"
    and tc: "taskCounts w3 = taskCounts w0"
    and nn: "counts_nonneg w0"
    and sil: "\<forall>d \<in> set ds. silent_hasTask env d"
  shows "\<exists>u. scheduleTask env z tid w0 =
           (Inr tid, w3\<lparr>tasks := (tasks w3)(tid := (tasks w3 tid)\<lparr>state := scheduled\<rparr>),
                         taskCounts := increment_counts (type (tasks w3 tid)) ds (taskCounts w0),
                         user := u\<rparr>)"
proof -
  define w1 where "w1 = snd (transitionTo tid scheduling notScheduled None w0)"
  have tr: "transitionTo tid scheduling notScheduled None w0 = (Inr (), w1)"
    by (simp add: w1_def transitionTo_def st)
  have na: "nextArray w1 = nextArray w0"
    by (simp add: w1_def transitionTo_def st)
  have dl': "ZoneDelegate_scheduleTask env (zoneDelegate z) (zid z) tid (scheduleTask_bind z tid w1)
             = (Inr tid, w3)"
    using dl by (simp add: w1_def)
  have "\<forall>d \<in> set ds. 0 \<le> taskCounts w3 (zone d) (type (tasks w3 tid))"
    using nn tc by (simp add: counts_nonneg_def)
  then obtain u where u: "updateTaskCount_loop env (type (tasks w3 tid)) 1 ds w3
      = (Inr (), w3\<lparr>taskCounts := increment_counts (type (tasks w3 tid)) ds (taskCounts w3),
                    user := u\<rparr>)"
    using loop_increments [of ds env w3 "type (tasks w3 tid)"] sil by blast
  have up: "Zone_updateTaskCount env tid 1 w3
      = (Inr (), w3\<lparr>taskCounts := increment_counts (type (tasks w3 tid)) ds (taskCounts w0),
                    user := u\<rparr>)"
    using u by (simp add: Zone_updateTaskCount_def zd tc)
  have "scheduleTask env z tid w0 =
           (Inr tid, w3\<lparr>tasks := (tasks w3)(tid := (tasks w3 tid)\<lparr>state := scheduled\<rparr>),
                         taskCounts := increment_counts (type (tasks w3 tid)) ds (taskCounts w0),
                         user := u\<rparr>)"
    apply (simp add: scheduleTask_def chk scheduleTask_body_def tr na dl' zd up st3 Let_def)
    apply (simp add: transitionTo_def st3 Let_def)
    done
  then show ?thesis by blast
qed


text \<open>
  C1, as the code has it. Let \<open>runTask\<close> find the task \<open>scheduled\<close>, so that it moves the
  task to \<open>running\<close> itself (the run is not re-entrant), and let the task still be
  \<open>running\<close>, and the frame stack not empty, when the callback is over.

  (a) An event task or a task with \<open>data.isPeriodic\<close> goes back to \<open>scheduled\<close>; the
  unwinding changes nothing else of the state but the popped frame and the restored
  current task, so \<open>runCount\<close> and the counters are as the callback left them.

  (b) Any other task, when its \<open>_zoneDelegates\<close> list is still set after the callback,
  the notifications of the delegates of that list are silent and the counter of each of
  them is at least the number of its entries in the list: \<open>runCount\<close> becomes 0,
  \<open>_zoneDelegates\<close> is nulled, the counter of every delegate is lowered by one for each
  of its entries and the state becomes \<open>notScheduled\<close>.

  (c) The callback starts with \<open>runCount\<close> one higher than at the call.

  (d) The round trip. Let \<open>w\<close> be the state that \<open>scheduleTask\<close> leaves for a
  \<open>notScheduled\<close> task that passes the descendant check, from a state \<open>w0\<close> without a
  negative counter, where the delegate's \<open>scheduleTask\<close> returned the task still
  \<open>scheduling\<close>, with the list \<open>sds\<close> in the new array and the counters untouched, and
  where the notifications of the delegates of \<open>sds\<close> are silent. Then \<open>scheduleTask\<close>
  returns the task and raises the counters by the entries of \<open>sds\<close>. If the callback
  leaves the counters as it found them, then a task that is neither an event task nor
  periodic, whose type and delegate list are as scheduling left them, ends
  \<open>notScheduled\<close> with \<open>runCount = 0\<close> and every counter as it was before the scheduling;
  and an event task or periodic task whose \<open>runCount\<close> the callback left alone ends
  \<open>scheduled\<close> with \<open>runCount\<close> one higher than at the call and the counters still raised.
\<close>

theorem runTask_unwinds_task:
  assumes "same_zone (task_zone (tasks w tid)) z"
    and "state (tasks w tid) = scheduled"
    and "runTask_try env z tid applyThis applyArgs
           (runTask_enter z tid (snd (transitionTo tid running scheduled None w))) = (r, w4)"
    and "state (tasks w4 tid) = running"
    and "currentZoneFrame w4 = f # fs"
  shows "(type (tasks w4 tid) = eventTask \<or> isPeriodicData (tasks w4 tid) \<longrightarrow>
            runTask env z tid applyThis applyArgs w =
              (r, w4\<lparr>tasks := (tasks w4)(tid := (tasks w4 tid)\<lparr>state := scheduled\<rparr>),
                      currentZoneFrame := fs, currentTask := currentTask w\<rparr>))
         \<and> (type (tasks w4 tid) \<noteq> eventTask \<and> \<not> isPeriodicData (tasks w4 tid)
             \<and> zoneDelegates (tasks w4 tid) = Some (a, ds)
             \<and> (\<forall>d \<in> set ds. silent_hasTask env d)
             \<and> (\<forall>d \<in> set ds. entries ds (zone d)
                    \<le> taskCounts w4 (zone d) (type (tasks w4 tid))) \<longrightarrow>
            (\<exists>u. runTask env z tid applyThis applyArgs w =
              (r, w4\<lparr>tasks := (tasks w4)(tid := (tasks w4 tid)\<lparr>runCount := 0,
                        state := notScheduled, zoneDelegates := None\<rparr>),
                      taskCounts := decrement_counts (type (tasks w4 tid)) ds (taskCounts w4),
                      currentZoneFrame := fs, currentTask := currentTask w, user := u\<rparr>)))
         \<and> runCount (tasks (runTask_enter z tid (snd (transitionTo tid running scheduled None w))) tid)
             = runCount (tasks w tid) + 1
         \<and> (scheduleTask_check z (tasks w0 tid) = None \<and> state (tasks w0 tid) = notScheduled
             \<and> ZoneDelegate_scheduleTask env (zoneDelegate z) (zid z) tid
                  (scheduleTask_bind z tid (snd (transitionTo tid scheduling notScheduled None w0)))
                = (Inr tid, w3)
             \<and> state (tasks w3 tid) = scheduling
             \<and> zoneDelegates (tasks w3 tid) = Some (nextArray w0, sds)
             \<and> taskCounts w3 = taskCounts w0 \<and> counts_nonneg w0
             \<and> (\<forall>d \<in> set sds. silent_hasTask env d)
             \<and> w = snd (scheduleTask env z tid w0)
             \<and> taskCounts w4 = taskCounts w \<longrightarrow>
            fst (scheduleTask env z tid w0) = Inr tid
            \<and> taskCounts w = increment_counts (type (tasks w3 tid)) sds (taskCounts w0)
            \<and> (type (tasks w4 tid) \<noteq> eventTask \<and> \<not> isPeriodicData (tasks w4 tid)
                \<and> type (tasks w4 tid) = type (tasks w3 tid)
                \<and> zoneDelegates (tasks w4 tid) = Some (nextArray w0, sds) \<longrightarrow>
               fst (runTask env z tid applyThis applyArgs w) = r
               \<and> state (tasks (snd (runTask env z tid applyThis applyArgs w)) tid) = notScheduled
               \<and> runCount (tasks (snd (runTask env z tid applyThis applyArgs w)) tid) = 0
               \<and> taskCounts (snd (runTask env z tid applyThis applyArgs w)) = taskCounts w0)
            \<and> ((type (tasks w4 tid) = eventTask \<or> isPeriodicData (tasks w4 tid))
                \<and> runCount (tasks w4 tid) = runCount (tasks w tid) + 1 \<longrightarrow>
               fst (runTask env z tid applyThis applyArgs w) = r
               \<and> state (tasks (snd (runTask env z tid applyThis applyArgs w)) tid) = scheduled
               \<and> runCount (tasks (snd (runTask env z tid applyThis applyArgs w)) tid)
                   = runCount (tasks w tid) + 1
               \<and> taskCounts (snd (runTask env z tid applyThis applyArgs w))
                   = increment_counts (type (tasks w3 tid)) sds (taskCounts w0)))"
proof -
  have A: "runTask env z tid applyThis applyArgs w =
      (r, w4\<lparr>tasks := (tasks w4)(tid := (tasks w4 tid)\<lparr>state := scheduled\<rparr>),
              currentZoneFrame := fs, currentTask := currentTask w\<rparr>)"
    if "type (tasks w4 tid) = eventTask \<or> isPeriodicData (tasks w4 tid)"
    using that assms finally_back_to_scheduled [of w4 tid f fs env "currentTask w"]
    by (simp add: runTask_from_scheduled try_finally_def)
  have B: "\<exists>u. runTask env z tid applyThis applyArgs w =
              (r, w4\<lparr>tasks := (tasks w4)(tid := (tasks w4 tid)\<lparr>runCount := 0,
                        state := notScheduled, zoneDelegates := None\<rparr>),
                      taskCounts := decrement_counts (type (tasks w4 tid)) ds' (taskCounts w4),
                      currentZoneFrame := fs, currentTask := currentTask w, user := u\<rparr>)"
    if h: "type (tasks w4 tid) \<noteq> eventTask" "\<not> isPeriodicData (tasks w4 tid)"
      "zoneDelegates (tasks w4 tid) = Some (a', ds')"
      "\<forall>d \<in> set ds'. silent_hasTask env d"
      "\<forall>d \<in> set ds'. entries ds' (zone d) \<le> taskCounts w4 (zone d) (type (tasks w4 tid))"
    for a' ds'
  proof -
    obtain u where "runTask_finally env tid True (currentTask w) w4 =
           (Inr (), w4\<lparr>tasks := (tasks w4)(tid := (tasks w4 tid)\<lparr>runCount := 0,
                           state := notScheduled, zoneDelegates := None\<rparr>),
                        taskCounts := decrement_counts (type (tasks w4 tid)) ds' (taskCounts w4),
                        currentZoneFrame := fs, currentTask := currentTask w, user := u\<rparr>)"
      using finally_one_shot [of w4 tid f fs a' ds' env "currentTask w"] assms(4,5) h by blast
    then have "runTask env z tid applyThis applyArgs w =
              (r, w4\<lparr>tasks := (tasks w4)(tid := (tasks w4 tid)\<lparr>runCount := 0,
                        state := notScheduled, zoneDelegates := None\<rparr>),
                      taskCounts := decrement_counts (type (tasks w4 tid)) ds' (taskCounts w4),
                      currentZoneFrame := fs, currentTask := currentTask w, user := u\<rparr>)"
      using assms(1-3) by (simp add: runTask_from_scheduled try_finally_def)
    then show ?thesis by blast
  qed
  have C: "runCount (tasks (runTask_enter z tid (snd (transitionTo tid running scheduled None w))) tid)
             = runCount (tasks w tid) + 1"
    using assms(2) by (simp add: runTask_enter_def pushFrame_def transitionTo_def)
  have D: "fst (scheduleTask env z tid w0) = Inr tid
            \<and> taskCounts w = increment_counts (type (tasks w3 tid)) sds (taskCounts w0)
            \<and> (type (tasks w4 tid) \<noteq> eventTask \<and> \<not> isPeriodicData (tasks w4 tid)
                \<and> type (tasks w4 tid) = type (tasks w3 tid)
                \<and> zoneDelegates (tasks w4 tid) = Some (nextArray w0, sds) \<longrightarrow>
               fst (runTask env z tid applyThis applyArgs w) = r
               \<and> state (tasks (snd (runTask env z tid applyThis applyArgs w)) tid) = notScheduled
               \<and> runCount (tasks (snd (runTask env z tid applyThis applyArgs w)) tid) = 0
               \<and> taskCounts (snd (runTask env z tid applyThis applyArgs w)) = taskCounts w0)
            \<and> ((type (tasks w4 tid) = eventTask \<or> isPeriodicData (tasks w4 tid))
                \<and> runCount (tasks w4 tid) = runCount (tasks w tid) + 1 \<longrightarrow>
               fst (runTask env z tid applyThis applyArgs w) = r
               \<and> state (tasks (snd (runTask env z tid applyThis applyArgs w)) tid) = scheduled
               \<and> runCount (tasks (snd (runTask env z tid applyThis applyArgs w)) tid)
                   = runCount (tasks w tid) + 1
               \<and> taskCounts (snd (runTask env z tid applyThis applyArgs w))
                   = increment_counts (type (tasks w3 tid)) sds (taskCounts w0))"
    if s: "scheduleTask_check z (tasks w0 tid) = None" "state (tasks w0 tid) = notScheduled"
      "ZoneDelegate_scheduleTask env (zoneDelegate z) (zid z) tid
         (scheduleTask_bind z tid (snd (transitionTo tid scheduling notScheduled None w0)))
       = (Inr tid, w3)"
      "state (tasks w3 tid) = scheduling"
      "zoneDelegates (tasks w3 tid) = Some (nextArray w0, sds)"
      "taskCounts w3 = taskCounts w0" "counts_nonneg w0"
      "\<forall>d \<in> set sds. silent_hasTask env d"
      and w: "w = snd (scheduleTask env z tid w0)"
      and k: "taskCounts w4 = taskCounts w"
  proof -
    obtain u0 where u0: "scheduleTask env z tid w0 =
           (Inr tid, w3\<lparr>tasks := (tasks w3)(tid := (tasks w3 tid)\<lparr>state := scheduled\<rparr>),
                         taskCounts := increment_counts (type (tasks w3 tid)) sds (taskCounts w0),
                         user := u0\<rparr>)"
      using scheduleTask_result [OF s] by blast
    have d1: "fst (scheduleTask env z tid w0) = Inr tid" by (simp add: u0)
    have d2: "taskCounts w = increment_counts (type (tasks w3 tid)) sds (taskCounts w0)"
      by (simp add: w u0)
    have d3: "fst (runTask env z tid applyThis applyArgs w) = r
               \<and> state (tasks (snd (runTask env z tid applyThis applyArgs w)) tid) = notScheduled
               \<and> runCount (tasks (snd (runTask env z tid applyThis applyArgs w)) tid) = 0
               \<and> taskCounts (snd (runTask env z tid applyThis applyArgs w)) = taskCounts w0"
      if o: "type (tasks w4 tid) \<noteq> eventTask" "\<not> isPeriodicData (tasks w4 tid)"
        "type (tasks w4 tid) = type (tasks w3 tid)"
        "zoneDelegates (tasks w4 tid) = Some (nextArray w0, sds)"
    proof -
      have "\<forall>d \<in> set sds. entries sds (zone d) \<le> taskCounts w4 (zone d) (type (tasks w4 tid))"
        using s(7) by (simp add: k d2 o(3) increment_counts_def counts_nonneg_def)
      from B [OF o(1,2,4) s(8) this] obtain u where
        "runTask env z tid applyThis applyArgs w =
              (r, w4\<lparr>tasks := (tasks w4)(tid := (tasks w4 tid)\<lparr>runCount := 0,
                        state := notScheduled, zoneDelegates := None\<rparr>),
                      taskCounts := decrement_counts (type (tasks w4 tid)) sds (taskCounts w4),
                      currentZoneFrame := fs, currentTask := currentTask w, user := u\<rparr>)"
        by blast
      then show ?thesis
        by (simp add: k d2 o(3) decrement_increment)
    qed
    have d4: "fst (runTask env z tid applyThis applyArgs w) = r
               \<and> state (tasks (snd (runTask env z tid applyThis applyArgs w)) tid) = scheduled
               \<and> runCount (tasks (snd (runTask env z tid applyThis applyArgs w)) tid)
                   = runCount (tasks w tid) + 1
               \<and> taskCounts (snd (runTask env z tid applyThis applyArgs w))
                   = increment_counts (type (tasks w3 tid)) sds (taskCounts w0)"
      if p: "type (tasks w4 tid) = eventTask \<or> isPeriodicData (tasks w4 tid)"
        "runCount (tasks w4 tid) = runCount (tasks w tid) + 1"
      using A [OF p(1)] p(2) k d2 by simp
    from d1 d2 d3 d4 show ?thesis by blast
  qed
  from A B C D show ?thesis by blast
qed


text \<open>
  An event task scheduled in \<open>zoneA\<close> and run once is \<open>scheduled\<close> again with
  \<open>runCount = 1\<close> and the counters as they were. A macrotask scheduled in \<open>zoneH\<close>
  (counter 0 to 1) and run ends \<open>notScheduled\<close> with \<open>runCount = 0\<close> and every counter as
  before the scheduling.
\<close>

theorem runTask_unwinds_task_witness:
  "state (tasks (snd (runTask idle_env zoneA 0 JUndefined [] event_world)) 0) = scheduled
   \<and> runCount (tasks (snd (runTask idle_env zoneA 0 JUndefined [] event_world)) 0) = 1
   \<and> taskCounts (snd (runTask idle_env zoneA 0 JUndefined [] event_world)) = taskCounts event_world
   \<and> currentZoneFrame (snd (runTask idle_env zoneA 0 JUndefined [] event_world)) = [rootZone]
   \<and> taskCounts recorder_world 3 macroTask = 0
   \<and> taskCounts counted_world 3 macroTask = 1
   \<and> state (tasks (snd (runTask recorder_env zoneH 0 JUndefined [] counted_world)) 0) = notScheduled
   \<and> runCount (tasks (snd (runTask recorder_env zoneH 0 JUndefined [] counted_world)) 0) = 0
   \<and> taskCounts (snd (runTask recorder_env zoneH 0 JUndefined [] counted_world))
       = taskCounts recorder_world"
proof -
  let ?e0 = "initial_world\<lparr>tasks := (\<lambda>tid. event_task)\<rparr>"
  let ?S = "ZoneDelegate_scheduleTask idle_env (zoneDelegate zoneA) (zid zoneA) 0
              (scheduleTask_bind zoneA 0 (snd (transitionTo 0 scheduling notScheduled None ?e0)))"
  let ?X = "runTask_try idle_env zoneA 0 JUndefined []
              (runTask_enter zoneA 0 (snd (transitionTo 0 running scheduled None event_world)))"
  have a1: "same_zone (task_zone (tasks event_world 0)) zoneA"
    by (simp add: event_world_def event_task_def eval_defs)
  have a2: "state (tasks event_world 0) = scheduled"
    by (simp add: event_world_def event_task_def eval_defs)
  have a3: "?X = (fst ?X, snd ?X)" by simp
  have a4: "state (tasks (snd ?X) 0) = running"
    by (simp add: event_world_def event_task_def eval_defs)
  have a5: "currentZoneFrame (snd ?X) = zoneA # [rootZone]"
    by (simp add: event_world_def event_task_def eval_defs)
  have a6: "type (tasks (snd ?X) 0) = eventTask"
    "runCount (tasks (snd ?X) 0) = runCount (tasks event_world 0) + 1"
    "runCount (tasks event_world 0) = 0"
    "taskCounts (snd ?X) = taskCounts event_world"
    by (simp_all add: event_world_def event_task_def eval_defs)
  have a7: "scheduleTask_check zoneA (tasks ?e0 0) = None" "state (tasks ?e0 0) = notScheduled"
    "?S = (Inr 0, snd ?S)" "state (tasks (snd ?S) 0) = scheduling"
    "zoneDelegates (tasks (snd ?S) 0) = Some (nextArray ?e0, [])"
    "taskCounts (snd ?S) = taskCounts ?e0" "counts_nonneg ?e0"
    "\<forall>d \<in> set []. silent_hasTask idle_env d"
    "event_world = snd (scheduleTask idle_env zoneA 0 ?e0)"
    by (simp_all add: event_world_def event_task_def counts_nonneg_def eval_defs)
  note A = runTask_unwinds_task [OF a1 a2 a3 a4 a5,
      where ?w0.0 = ?e0 and ?w3.0 = "snd ?S" and sds = "[]"]
  from A a6 a7 have ev:
    "state (tasks (snd (runTask idle_env zoneA 0 JUndefined [] event_world)) 0) = scheduled
     \<and> runCount (tasks (snd (runTask idle_env zoneA 0 JUndefined [] event_world)) 0) = 1
     \<and> taskCounts (snd (runTask idle_env zoneA 0 JUndefined [] event_world)) = taskCounts event_world
     \<and> currentZoneFrame (snd (runTask idle_env zoneA 0 JUndefined [] event_world)) = [rootZone]"
    by simp
  let ?T = "ZoneDelegate_scheduleTask recorder_env (zoneDelegate zoneH) (zid zoneH) 0
              (scheduleTask_bind zoneH 0
                 (snd (transitionTo 0 scheduling notScheduled None recorder_world)))"
  let ?Y = "runTask_try recorder_env zoneH 0 JUndefined []
              (runTask_enter zoneH 0 (snd (transitionTo 0 running scheduled None counted_world)))"
  have b1: "same_zone (task_zone (tasks counted_world 0)) zoneH"
    by (simp add: counted_world_def eval_defs)
  have b2: "state (tasks counted_world 0) = scheduled"
    by (simp add: counted_world_def eval_defs)
  have b3: "?Y = (fst ?Y, snd ?Y)" by simp
  have b4: "state (tasks (snd ?Y) 0) = running"
    by (simp add: counted_world_def eval_defs)
  have b5: "currentZoneFrame (snd ?Y) = zoneH # [rootZone]"
    by (simp add: counted_world_def eval_defs)
  have b6: "type (tasks (snd ?Y) 0) \<noteq> eventTask" "\<not> isPeriodicData (tasks (snd ?Y) 0)"
    "type (tasks (snd ?Y) 0) = type (tasks (snd ?T) 0)"
    "zoneDelegates (tasks (snd ?Y) 0) = Some (nextArray recorder_world, [zoneDelegate zoneH])"
    "taskCounts (snd ?Y) = taskCounts counted_world"
    by (simp_all add: counted_world_def eval_defs)
  have b7: "\<forall>d \<in> set [zoneDelegate zoneH]. silent_hasTask recorder_env d"
    unfolding silent_hasTask_def
    by (auto simp: ZoneDelegate_hasTask.simps recorder_env_def idle_env_def zoneH_def)
  have b8: "scheduleTask_check zoneH (tasks recorder_world 0) = None"
    "state (tasks recorder_world 0) = notScheduled"
    "?T = (Inr 0, snd ?T)" "state (tasks (snd ?T) 0) = scheduling"
    "zoneDelegates (tasks (snd ?T) 0) = Some (nextArray recorder_world, [zoneDelegate zoneH])"
    "taskCounts (snd ?T) = taskCounts recorder_world" "counts_nonneg recorder_world"
    by (simp_all add: counts_nonneg_def eval_defs)
  have c: "taskCounts recorder_world 3 macroTask = 0" "taskCounts counted_world 3 macroTask = 1"
    by (simp_all add: counted_world_def eval_defs)
  note B = runTask_unwinds_task [OF b1 b2 b3 b4 b5,
      where ?w0.0 = recorder_world and ?w3.0 = "snd ?T" and sds = "[zoneDelegate zoneH]",
      THEN conjunct2, THEN conjunct2, THEN conjunct2]
  from B b6 b7 b8 have
    "state (tasks (snd (runTask recorder_env zoneH 0 JUndefined [] counted_world)) 0) = notScheduled
     \<and> runCount (tasks (snd (runTask recorder_env zoneH 0 JUndefined [] counted_world)) 0) = 0
     \<and> taskCounts (snd (runTask recorder_env zoneH 0 JUndefined [] counted_world))
         = taskCounts recorder_world"
    by (simp add: counted_world_def)
  with ev c show ?thesis by simp
qed

text \<open>
  The claim as it is written fails in two ways. A re-entrant run: an event task that is
  already \<open>running\<close> when \<open>runTask\<close> is called is still \<open>running\<close>, not \<open>scheduled\<close>, when
  that call returns, although its state after the callback is neither \<open>notScheduled\<close>
  nor \<open>unknown\<close>. A callback that runs its own task once more: the inner run nulls
  \<open>_zoneDelegates\<close>, so the unwinding of the outer run of the macrotask, which is not
  periodic and is \<open>running\<close> after the callback, throws a \<open>TypeError\<close> at
  \<open>zoneDelegates.length\<close> and leaves the task \<open>running\<close>, not \<open>notScheduled\<close>.
\<close>

theorem runTask_unwinds_task_counterexample:
  "type (tasks running_event_world 0) = eventTask
   \<and> state (tasks (snd (runTask_try idle_env zoneA 0 JUndefined []
        (runTask_enter zoneA 0 running_event_world))) 0) = running
   \<and> fst (runTask idle_env zoneA 0 JUndefined [] running_event_world) = Inr JUndefined
   \<and> state (tasks (snd (runTask idle_env zoneA 0 JUndefined [] running_event_world)) 0) = running
   \<and> type (tasks scheduled_world 0) = macroTask
   \<and> \<not> isPeriodicData (tasks scheduled_world 0)
   \<and> state (tasks scheduled_world 0) = scheduled
   \<and> state (tasks (snd (runTask_try reentering_env zoneA 0 JUndefined []
        (runTask_enter zoneA 0 (snd (transitionTo 0 running scheduled None scheduled_world))))) 0)
       = running
   \<and> fst (runTask reentering_env zoneA 0 JUndefined [] scheduled_world)
       = Inl (TypeError ''Cannot read property length of null'')
   \<and> state (tasks (snd (runTask reentering_env zoneA 0 JUndefined [] scheduled_world)) 0) = running
   \<and> runCount (tasks (snd (runTask reentering_env zoneA 0 JUndefined [] scheduled_world)) 0) = 0"
  by (simp add: running_event_world_def event_world_def event_task_def scheduled_world_def
      reentering_env_def runTask_def runTask_finally_def try_finally_def eval_defs)

section \<open>ZoneTask.invokeTask: the run count\<close>

lemma runTask_periodic_result:
  assumes "task_zone (tasks w tid) = Some z" and "state (tasks w tid) = scheduled"
    and "type (tasks w tid) = eventTask \<or> isPeriodicData (tasks w tid)"
    and "leaves_task env z tid applyThis applyArgs"
  shows "tasks (snd (runTask env z tid applyThis applyArgs w)) tid
           = (tasks w tid)\<lparr>runCount := runCount (tasks w tid) + 1\<rparr>"
proof -
  let ?w3 = "runTask_enter z tid (snd (transitionTo tid running scheduled None w))"
  obtain r w4 where b: "runTask_try env z tid applyThis applyArgs ?w3 = (r, w4)"
    by (cases "runTask_try env z tid applyThis applyArgs ?w3")
  have t3: "tasks ?w3 tid = (tasks w tid)\<lparr>state := running, runCount := runCount (tasks w tid) + 1\<rparr>"
    using assms(2) by (simp add: runTask_enter_def pushFrame_def transitionTo_def)
  have f3: "currentZoneFrame ?w3 = z # currentZoneFrame w"
    using assms(2) by (simp add: runTask_enter_def pushFrame_def transitionTo_def)
  have "runTask_try env z tid applyThis applyArgs ?w3
          = guarded env z (ZoneDelegate_invokeTask env (zoneDelegate z) (zid z) tid
              applyThis applyArgs ?w3)"
    using t3 assms(3) by (auto simp: runTask_try_def isPeriodicData_def Let_def)
  then have t: "tasks w4 tid = tasks ?w3 tid" and f: "currentZoneFrame w4 = currentZoneFrame ?w3"
    using assms(4) b unfolding leaves_task_def by (metis snd_conv)+
  have sz: "same_zone (task_zone (tasks w tid)) z"
    using assms(1) by (simp add: same_zone_def)
  have st: "state (tasks w4 tid) = running" using t t3 by simp
  have ty: "type (tasks w4 tid) = eventTask \<or> isPeriodicData (tasks w4 tid)"
    using t t3 assms(3) by (simp add: isPeriodicData_def)
  have "runTask env z tid applyThis applyArgs w =
          (r, w4\<lparr>tasks := (tasks w4)(tid := (tasks w4 tid)\<lparr>state := scheduled\<rparr>),
                  currentZoneFrame := currentZoneFrame w, currentTask := currentTask w\<rparr>)"
    using finally_back_to_scheduled [OF st ty, of z "currentZoneFrame w" env "currentTask w"]
      f f3 sz assms(2) b
    by (simp add: runTask_from_scheduled try_finally_def)
  then show ?thesis
    using t t3 assms(2) by (cases "tasks w tid") simp
qed


lemma invokeTask_enter_task:
  "tasks (invokeTask_enter tid w) tid = (tasks w tid)\<lparr>runCount := runCount (tasks w tid) + 1\<rparr>"
  by (simp add: invokeTask_enter_def)

text \<open>
  C9. A scheduled event task, or task with \<open>data.isPeriodic\<close>, entered through
  \<open>ZoneTask.invokeTask\<close> has its \<open>runCount\<close> two higher when the call returns, one from
  the entry point and one from \<open>runTask\<close>; a direct \<open>zone.runTask\<close> makes it one higher.
  The user's code is taken to leave the task object alone, and so is the drain of the
  microtask queue that the outermost entry runs.
\<close>

theorem invokeTask_counts_twice:
  assumes "task_zone (tasks w tid) = Some z" and "state (tasks w tid) = scheduled"
    and "type (tasks w tid) = eventTask \<or> isPeriodicData (tasks w tid)"
    and "leaves_task env z tid target args"
    and "numberOfNestedTaskFrames (snd (runTask env z tid target args (invokeTask_enter tid w))) = 1
         \<longrightarrow> drainMicroTaskQueue fuel env
               (snd (runTask env z tid target args (invokeTask_enter tid w))) = Some (Inr (), w5)
             \<and> tasks w5 tid
                 = tasks (snd (runTask env z tid target args (invokeTask_enter tid w))) tid"
  shows "(\<exists>w'. ZoneTask_invokeTask fuel env tid target args w
                   = Some (fst (runTask env z tid target args (invokeTask_enter tid w)), w')
            \<and> tasks w' tid = (tasks w tid)\<lparr>runCount := runCount (tasks w tid) + 2\<rparr>)
         \<and> tasks (snd (runTask env z tid target args w)) tid
             = (tasks w tid)\<lparr>runCount := runCount (tasks w tid) + 1\<rparr>"
proof
  let ?w2 = "invokeTask_enter tid w"
  let ?W = "snd (runTask env z tid target args ?w2)"
  have pre: "task_zone (tasks ?w2 tid) = Some z" "state (tasks ?w2 tid) = scheduled"
    "type (tasks ?w2 tid) = eventTask \<or> isPeriodicData (tasks ?w2 tid)"
    using assms(1-3) by (simp_all add: invokeTask_enter_def isPeriodicData_def)
  have W: "tasks ?W tid = (tasks w tid)\<lparr>runCount := runCount (tasks w tid) + 2\<rparr>"
    using runTask_periodic_result [OF pre assms(4)] by (simp add: invokeTask_enter_task)
  have unf: "ZoneTask_invokeTask fuel env tid target args w =
      (case (if numberOfNestedTaskFrames ?W = 1 then drainMicroTaskQueue fuel env ?W
             else Some (Inr (), ?W)) of
         None \<Rightarrow> None
       | Some (Inl e, w4) \<Rightarrow> Some (Inl e, w4)
       | Some (Inr _, w4) \<Rightarrow>
           Some (fst (runTask env z tid target args ?w2),
                 w4\<lparr>numberOfNestedTaskFrames := numberOfNestedTaskFrames w4 - 1\<rparr>))"
    using pre(1)
    by (simp add: ZoneTask_invokeTask_def split_beta)
  show "\<exists>w'. ZoneTask_invokeTask fuel env tid target args w
                   = Some (fst (runTask env z tid target args (invokeTask_enter tid w)), w')
            \<and> tasks w' tid = (tasks w tid)\<lparr>runCount := runCount (tasks w tid) + 2\<rparr>"
  proof (cases "numberOfNestedTaskFrames ?W = 1")
    case True
    with assms(5) W show ?thesis by (simp add: unf)
  next
    case False
    with W show ?thesis by (simp add: unf)
  qed
  show "tasks (snd (runTask env z tid target args w)) tid
             = (tasks w tid)\<lparr>runCount := runCount (tasks w tid) + 1\<rparr>"
    by (rule runTask_periodic_result [OF assms(1-4)])
qed

theorem invokeTask_counts_twice_witness:
  "runCount (tasks event_world 0) = 0
   \<and> (\<exists>w'. ZoneTask_invokeTask 1 idle_env 0 JUndefined [] event_world = Some (Inr JUndefined, w')
          \<and> runCount (tasks w' 0) = 2 \<and> state (tasks w' 0) = scheduled)
   \<and> runCount (tasks (snd (runTask idle_env zoneA 0 JUndefined [] event_world)) 0) = 1"
proof -
  let ?W = "snd (runTask idle_env zoneA 0 JUndefined [] (invokeTask_enter 0 event_world))"
  have a1: "task_zone (tasks event_world 0) = Some zoneA"
    by (simp add: event_world_def event_task_def eval_defs)
  have a2: "state (tasks event_world 0) = scheduled"
    by (simp add: event_world_def event_task_def eval_defs)
  have a3: "type (tasks event_world 0) = eventTask \<or> isPeriodicData (tasks event_world 0)"
    by (simp add: event_world_def event_task_def eval_defs)
  have a4: "leaves_task idle_env zoneA 0 JUndefined []"
    by (simp add: leaves_task_def guarded_def ZoneDelegate_invokeTask.simps zoneA_def
        plain_delegate_def idle_env_def)
  have a5: "numberOfNestedTaskFrames ?W = 1 \<longrightarrow>
      drainMicroTaskQueue 1 idle_env ?W = Some (Inr (), ?W\<lparr>isDrainingMicrotaskQueue := False\<rparr>)
      \<and> tasks (?W\<lparr>isDrainingMicrotaskQueue := False\<rparr>) 0 = tasks ?W 0"
    by (simp add: event_world_def event_task_def invokeTask_enter_def runTask_def
        runTask_finally_def try_finally_def drainMicroTaskQueue_def eval_defs)
  have r: "fst (runTask idle_env zoneA 0 JUndefined [] (invokeTask_enter 0 event_world))
             = Inr JUndefined"
    by (simp add: event_world_def event_task_def invokeTask_enter_def runTask_def
        runTask_finally_def try_finally_def eval_defs)
  have c: "runCount (tasks event_world 0) = 0"
    by (simp add: event_world_def event_task_def eval_defs)
  from invokeTask_counts_twice [OF a1 a2 a3 a4 a5]
  obtain w' where
    i: "ZoneTask_invokeTask 1 idle_env 0 JUndefined [] event_world
          = Some (fst (runTask idle_env zoneA 0 JUndefined [] (invokeTask_enter 0 event_world)), w')"
    and t: "tasks w' 0 = (tasks event_world 0)\<lparr>runCount := runCount (tasks event_world 0) + 2\<rparr>"
    and d: "tasks (snd (runTask idle_env zoneA 0 JUndefined [] event_world)) 0
             = (tasks event_world 0)\<lparr>runCount := runCount (tasks event_world 0) + 1\<rparr>"
    by blast
  with r a2 c show ?thesis by simp
qed

section \<open>Zone.scheduleTask: a hook that throws\<close>

lemma zoneS_constructed: "new_Zone 5 (Some rootZone) (Some refusing_spec) = Inr zoneS"
  by (simp add: new_Zone_def new_ZoneDelegate_def rootZone_def zoneS_def plain_delegate_def
      plain_spec_def refusing_spec_def)

text \<open>
  C10. When the delegate's \<open>scheduleTask\<close> throws, \<open>Zone.scheduleTask\<close> sets the state to
  \<open>unknown\<close>, calls \<open>handleError\<close> and rethrows the error. It has bound \<open>task._zone\<close> to
  the receiver before, with the counters as they were, and the error path writes nothing
  but the state: when the hooks leave the binding and the counters alone, the task ends
  \<open>unknown\<close>, bound to the receiver, and no counter has changed.
\<close>

theorem scheduleTask_failure_keeps_zone:
  assumes "scheduleTask_check z (tasks w tid) = None"
    and "state (tasks w tid) = notScheduled"
    and "ZoneDelegate_scheduleTask env (zoneDelegate z) (zid z) tid
           (scheduleTask_bind z tid (snd (transitionTo tid scheduling notScheduled None w)))
         = (Inl err, w3)"
    and "state (tasks w3 tid) = scheduling \<or> state (tasks w3 tid) = notScheduled"
    and "ZoneDelegate_handleError env (zoneDelegate z) (zid z) err
           (w3\<lparr>tasks := (tasks w3)(tid := (tasks w3 tid)\<lparr>state := unknown\<rparr>)\<rparr>) = (Inr b, w5)"
  shows "scheduleTask env z tid w = (Inl err, w5)
         \<and> task_zone (tasks (scheduleTask_bind z tid
               (snd (transitionTo tid scheduling notScheduled None w))) tid) = Some z
         \<and> taskCounts (scheduleTask_bind z tid
               (snd (transitionTo tid scheduling notScheduled None w))) = taskCounts w
         \<and> (task_zone (tasks w3 tid) = Some z \<and> taskCounts w3 = taskCounts w
              \<and> tasks w5 tid = (tasks w3 tid)\<lparr>state := unknown\<rparr> \<and> taskCounts w5 = taskCounts w3
             \<longrightarrow> state (tasks w5 tid) = unknown \<and> task_zone (tasks w5 tid) = Some z
                 \<and> taskCounts w5 = taskCounts w)"
proof -
  have tr: "transitionTo tid unknown scheduling (Some notScheduled) w3
      = (Inr (), w3\<lparr>tasks := (tasks w3)(tid := (tasks w3 tid)\<lparr>state := unknown\<rparr>)\<rparr>)"
    using assms(4) by (auto simp: transitionTo_def Let_def)
  have "scheduleTask env z tid w = (Inl err, w5)"
    using assms(1,2,3,5) tr
    by (simp add: scheduleTask_def scheduleTask_body_def Let_def transitionTo_def)
  moreover have "task_zone (tasks (scheduleTask_bind z tid
               (snd (transitionTo tid scheduling notScheduled None w))) tid) = Some z"
    by (simp add: scheduleTask_bind_def)
  moreover have "taskCounts (scheduleTask_bind z tid
               (snd (transitionTo tid scheduling notScheduled None w))) = taskCounts w"
    using assms(2) by (simp add: scheduleTask_bind_def transitionTo_def)
  ultimately show ?thesis by simp
qed

text \<open>
  A fresh task, bound to no zone, scheduled in \<open>zoneS\<close>: the error of the hook comes out,
  the task is \<open>unknown\<close> and bound to \<open>zoneS\<close>, no counter has moved and \<open>onHasTask\<close> was
  not called.
\<close>

theorem scheduleTask_failure_keeps_zone_witness:
  "task_zone (tasks recorder_world 0) = None
   \<and> fst (scheduleTask refusing_env zoneS 0 recorder_world) = Inl (Error ''no'')
   \<and> state (tasks (snd (scheduleTask refusing_env zoneS 0 recorder_world)) 0) = unknown
   \<and> map_option zid (task_zone (tasks (snd (scheduleTask refusing_env zoneS 0 recorder_world)) 0))
       = Some 5
   \<and> taskCounts (snd (scheduleTask refusing_env zoneS 0 recorder_world)) = taskCounts recorder_world
   \<and> user (snd (scheduleTask refusing_env zoneS 0 recorder_world)) = []"
proof -
  let ?b = "scheduleTask_bind zoneS 0 (snd (transitionTo 0 scheduling notScheduled None recorder_world))"
  let ?w3 = "snd (ZoneDelegate_scheduleTask refusing_env (zoneDelegate zoneS) (zid zoneS) 0 ?b)"
  let ?w4 = "?w3\<lparr>tasks := (tasks ?w3)(0 := (tasks ?w3 0)\<lparr>state := unknown\<rparr>)\<rparr>"
  have a1: "scheduleTask_check zoneS (tasks recorder_world 0) = None"
    by (simp add: scheduleTask_check_def recorder_world_def fresh_task_def new_ZoneTask_def)
  have a2: "state (tasks recorder_world 0) = notScheduled"
    by (simp add: recorder_world_def fresh_task_def new_ZoneTask_def)
  have a3: "ZoneDelegate_scheduleTask refusing_env (zoneDelegate zoneS) (zid zoneS) 0 ?b
              = (Inl (Error ''no''), ?w3)"
    by (simp add: zoneS_def refusing_env_def ZoneDelegate_scheduleTask.simps scheduleTask_bind_def
        transitionTo_def recorder_world_def fresh_task_def new_ZoneTask_def Let_def)
  have a4: "state (tasks ?w3 0) = scheduling \<or> state (tasks ?w3 0) = notScheduled"
    by (simp add: zoneS_def refusing_env_def ZoneDelegate_scheduleTask.simps scheduleTask_bind_def
        transitionTo_def recorder_world_def fresh_task_def new_ZoneTask_def Let_def)
  have a5: "ZoneDelegate_handleError refusing_env (zoneDelegate zoneS) (zid zoneS) (Error ''no'') ?w4
              = (Inr True, ?w4)"
    by (simp add: ZoneDelegate_handleError_def zoneS_def)
  have a6: "map_option zid (task_zone (tasks ?w3 0)) = Some 5" "taskCounts ?w3 = taskCounts recorder_world"
    "user ?w3 = []" "task_zone (tasks recorder_world 0) = None"
    by (simp_all add: zoneS_def refusing_env_def ZoneDelegate_scheduleTask.simps scheduleTask_bind_def
        transitionTo_def recorder_world_def fresh_task_def new_ZoneTask_def Let_def)
  from scheduleTask_failure_keeps_zone [OF a1 a2 a3 a4 a5] a6 show ?thesis
    by simp
qed

section \<open>drainMicroTaskQueue\<close>

lemma drain_task_returns:
  assumes "hooks_return env"
  shows "fst (drain_task env tid v) = Inr ()"
proof -
  have h: "\<And>e v. \<exists>x. fst (onUnhandledError env e v) = Inr x"
    using assms by (simp add: hooks_return_def)
  show ?thesis
  proof (cases "case task_zone (tasks v tid) of
              None \<Rightarrow> (Inl (TypeError ''Cannot read property runTask of null''), v)
            | Some z \<Rightarrow> runTask env z tid JNull [] v")
    case (Pair r v1)
    show ?thesis
    proof (cases r)
      case (Inl error)
      obtain x where "fst (onUnhandledError env error v1) = Inr x" using h by blast
      then show ?thesis using Pair Inl
        by (cases "onUnhandledError env error v1") (simp add: drain_task_def)
    next
      case (Inr a)
      then show ?thesis using Pair by (simp add: drain_task_def)
    qed
  qed
qed

lemma drain_queue_fold:
  assumes "hooks_return env"
  shows "drain_queue env queue v = (Inr (), foldl (drain_step env) v queue)"
proof (induction queue arbitrary: v)
  case Nil
  show ?case by simp
next
  case (Cons tid queue)
  have "fst (drain_task env tid v) = Inr ()" by (rule drain_task_returns [OF assms])
  then have "drain_task env tid v = (Inr (), drain_step env v tid)"
    by (cases "drain_task env tid v") (simp add: drain_step_def)
  then show ?case using Cons.IH by simp
qed

lemma drain_loop_result:
  assumes "hooks_return env" and "drain_loop n env v = Some (x, v1)"
  shows "x = Inr () \<and> microTaskQueue v1 = [] \<and> drain_loop (n + k) env v = Some (x, v1)"
  using assms(2)
proof (induction n arbitrary: v)
  case 0
  then show ?case by simp
next
  case (Suc n)
  show ?case
  proof (cases "microTaskQueue v = []")
    case True
    with Suc.prems show ?thesis by auto
  next
    case False
    let ?v' = "foldl (drain_step env) (v\<lparr>microTaskQueue := []\<rparr>) (microTaskQueue v)"
    have "drain_loop n env ?v' = Some (x, v1)"
      using Suc.prems False by (simp add: drain_queue_fold [OF assms(1)])
    from Suc.IH [OF this] False show ?thesis
      by (simp add: drain_queue_fold [OF assms(1)])
  qed
qed

lemma drain_pass_empty: "microTaskQueue v = [] \<Longrightarrow> drain_pass env v = v"
  by (simp add: drain_pass_def)

lemma drain_passes_empty: "microTaskQueue v = [] \<Longrightarrow> (drain_pass env ^^ k) v = v"
  by (induction k) (simp_all add: drain_pass_empty)

lemma drain_loop_step:
  assumes "hooks_return env"
  shows "drain_loop (Suc n) env v =
           (if microTaskQueue v = [] then Some (Inr (), v) else drain_loop n env (drain_pass env v))"
  by (simp add: drain_queue_fold [OF assms] drain_pass_def)

lemma drain_loop_returns:
  assumes "hooks_return env"
  shows "microTaskQueue ((drain_pass env ^^ k) v) = [] \<Longrightarrow>
         drain_loop (Suc k) env v = Some (Inr (), (drain_pass env ^^ k) v)"
proof (induction k arbitrary: v)
  case 0
  then show ?case by (simp add: drain_loop_step [OF assms])
next
  case (Suc k)
  show ?case
  proof (cases "microTaskQueue v = []")
    case True
    then show ?thesis
      using drain_loop_step [OF assms, of "Suc k" v] drain_passes_empty [OF True, of "Suc k" env]
      by simp
  next
    case False
    have "microTaskQueue ((drain_pass env ^^ k) (drain_pass env v)) = []"
      using Suc.prems by (simp add: funpow_swap1)
    from Suc.IH [OF this] False show ?thesis
      using drain_loop_step [OF assms, of "Suc k" v] by (simp add: funpow_swap1)
  qed
qed

lemma drain_loop_diverges:
  assumes "hooks_return env"
  shows "\<forall>k. microTaskQueue ((drain_pass env ^^ k) v) \<noteq> [] \<Longrightarrow> drain_loop n env v = None"
proof (induction n arbitrary: v)
  case 0
  show ?case by simp
next
  case (Suc n)
  have ne: "microTaskQueue v \<noteq> []" using Suc.prems [rule_format, of 0] by simp
  have "\<forall>k. microTaskQueue ((drain_pass env ^^ k) (drain_pass env v)) \<noteq> []"
    using Suc.prems by (metis funpow_Suc_right o_apply)
  from Suc.IH [OF this] ne show ?case
    using drain_loop_step [OF assms, of n v] by simp
qed

text \<open>
  C7. With external hooks that return: one iteration of the drain never throws, an error
  of the task's \<open>runTask\<close> going to \<open>onUnhandledError\<close>; the \<open>for\<close> loop is the left fold
  of that iteration over the queue as it was when the loop started, so it runs every
  task of it, in order, whatever the tasks before did; the \<open>while\<close> loop returns on an
  empty queue and otherwise makes a pass, which swaps the queue for an empty one first,
  so what the tasks enqueue is run by a later pass. If the queue is empty after \<open>k\<close>
  passes the loop returns the state after those passes, with any fuel above \<open>k\<close>, and
  the drain then calls \<open>microtaskDrainDone\<close> and clears the flag; if the tasks enqueue
  for ever, it never returns. A call made while a drain is running returns at once.
\<close>

theorem drain_runs_all_in_order:
  assumes "hooks_return env"
  shows "fst (drain_task env tid v) = Inr ()
    \<and> (task_zone (tasks v tid) = Some z \<and> runTask env z tid JNull [] v = (Inl error, v1)
         \<longrightarrow> drain_task env tid v = (Inr (), snd (onUnhandledError env error v1)))
    \<and> (task_zone (tasks v tid) = Some z \<and> runTask env z tid JNull [] v = (Inr y, v1)
         \<longrightarrow> drain_task env tid v = (Inr (), v1))
    \<and> drain_queue env queue v = (Inr (), foldl (drain_step env) v queue)
    \<and> drain_loop (Suc n) env v =
         (if microTaskQueue v = [] then Some (Inr (), v) else drain_loop n env (drain_pass env v))
    \<and> (microTaskQueue ((drain_pass env ^^ k) v) = [] \<longrightarrow>
         drain_loop (Suc k + m) env v = Some (Inr (), (drain_pass env ^^ k) v))
    \<and> ((\<forall>j. microTaskQueue ((drain_pass env ^^ j) v) \<noteq> []) \<longrightarrow> drain_loop n env v = None)
    \<and> (drain_loop n env v = Some (x, v2) \<longrightarrow> x = Inr () \<and> microTaskQueue v2 = [])
    \<and> (\<not> isDrainingMicrotaskQueue v
         \<and> microTaskQueue ((drain_pass env ^^ k) (v\<lparr>isDrainingMicrotaskQueue := True\<rparr>)) = []
         \<longrightarrow> drainMicroTaskQueue (Suc k + m) env v =
               Some (Inr (),
                 (snd (microtaskDrainDone env
                    ((drain_pass env ^^ k) (v\<lparr>isDrainingMicrotaskQueue := True\<rparr>))))
                 \<lparr>isDrainingMicrotaskQueue := False\<rparr>))
    \<and> (isDrainingMicrotaskQueue v \<longrightarrow> drainMicroTaskQueue n env v = Some (Inr (), v))"
proof (intro conjI impI)
  show "fst (drain_task env tid v) = Inr ()" by (rule drain_task_returns [OF assms])
next
  assume a: "task_zone (tasks v tid) = Some z \<and> runTask env z tid JNull [] v = (Inl error, v1)"
  obtain x' where "fst (onUnhandledError env error v1) = Inr x'"
    using assms unfolding hooks_return_def by blast
  then show "drain_task env tid v = (Inr (), snd (onUnhandledError env error v1))"
    using a by (cases "onUnhandledError env error v1") (simp add: drain_task_def)
next
  assume "task_zone (tasks v tid) = Some z \<and> runTask env z tid JNull [] v = (Inr y, v1)"
  then show "drain_task env tid v = (Inr (), v1)" by (simp add: drain_task_def)
next
  show "drain_queue env queue v = (Inr (), foldl (drain_step env) v queue)"
    by (rule drain_queue_fold [OF assms])
next
  show "drain_loop (Suc n) env v =
         (if microTaskQueue v = [] then Some (Inr (), v) else drain_loop n env (drain_pass env v))"
    by (rule drain_loop_step [OF assms])
next
  assume "microTaskQueue ((drain_pass env ^^ k) v) = []"
  from drain_loop_returns [OF assms this]
  show "drain_loop (Suc k + m) env v = Some (Inr (), (drain_pass env ^^ k) v)"
    using drain_loop_result [OF assms] by blast
next
  assume "\<forall>j. microTaskQueue ((drain_pass env ^^ j) v) \<noteq> []"
  then show "drain_loop n env v = None" by (rule drain_loop_diverges [OF assms])
next
  assume a: "drain_loop n env v = Some (x, v2)"
  show "x = Inr ()" "microTaskQueue v2 = []"
    using drain_loop_result [OF assms a] by simp_all
next
  let ?v = "v\<lparr>isDrainingMicrotaskQueue := True\<rparr>"
  assume a: "\<not> isDrainingMicrotaskQueue v \<and> microTaskQueue ((drain_pass env ^^ k) ?v) = []"
  then have "drain_loop (Suc k) env ?v = Some (Inr (), (drain_pass env ^^ k) ?v)"
    using drain_loop_returns [OF assms] by blast
  then have l: "drain_loop (Suc k + m) env ?v = Some (Inr (), (drain_pass env ^^ k) ?v)"
    using drain_loop_result [OF assms] by blast
  obtain x' where "fst (microtaskDrainDone env ((drain_pass env ^^ k) ?v)) = Inr x'"
    using assms unfolding hooks_return_def by blast
  then show "drainMicroTaskQueue (Suc k + m) env v =
               Some (Inr (), (snd (microtaskDrainDone env ((drain_pass env ^^ k) ?v)))
                 \<lparr>isDrainingMicrotaskQueue := False\<rparr>)"
    using a l by (cases "microtaskDrainDone env ((drain_pass env ^^ k) ?v)")
      (simp add: drainMicroTaskQueue_def)
next
  assume "isDrainingMicrotaskQueue v"
  then show "drainMicroTaskQueue n env v = Some (Inr (), v)"
    by (simp add: drainMicroTaskQueue_def)
qed

lemmas drain_eval_defs =
  queued_world_def logging_env_def micro_task_def drainMicroTaskQueue_def drain_task_def
  runTask_def runTask_finally_def try_finally_def scheduleMicroTask_def

lemma queued_world_queue: "microTaskQueue queued_world = [1, 2]"
  by (simp add: drain_eval_defs eval_defs)

lemma logging_drain:
  "drainMicroTaskQueue (Suc (Suc (Suc 0))) logging_env queued_world \<noteq> None
   \<and> fst (the (drainMicroTaskQueue (Suc (Suc (Suc 0))) logging_env queued_world)) = Inr ()
   \<and> user (snd (the (drainMicroTaskQueue (Suc (Suc (Suc 0))) logging_env queued_world)))
       = [''a'', ''unhandled'', ''b'', ''c'', ''done'']
   \<and> microTaskQueue (snd (the (drainMicroTaskQueue (Suc (Suc (Suc 0))) logging_env queued_world)))
       = []
   \<and> \<not> isDrainingMicrotaskQueue
          (snd (the (drainMicroTaskQueue (Suc (Suc (Suc 0))) logging_env queued_world)))"
  by (simp add: drain_eval_defs eval_defs)


lemma logging_first_task:
  "task_zone (tasks queued_world 1) = Some zoneA
   \<and> fst (runTask logging_env zoneA 1 JNull [] queued_world) = Inl (Error ''boom'')
   \<and> user (snd (runTask logging_env zoneA 1 JNull [] queued_world)) = [''a'']"
  by (simp add: drain_eval_defs eval_defs)

lemma logging_passes:
  "\<not> isDrainingMicrotaskQueue queued_world
   \<and> microTaskQueue (drain_pass logging_env (queued_world\<lparr>isDrainingMicrotaskQueue := True\<rparr>))
       = [3]
   \<and> microTaskQueue ((drain_pass logging_env ^^ Suc (Suc 0))
        (queued_world\<lparr>isDrainingMicrotaskQueue := True\<rparr>)) = []
   \<and> user ((drain_pass logging_env ^^ Suc (Suc 0))
        (queued_world\<lparr>isDrainingMicrotaskQueue := True\<rparr>)) = [''a'', ''unhandled'', ''b'', ''c'']"
  by (simp add: drain_pass_def drain_step_def drain_eval_defs eval_defs)

text \<open>
  The drain of \<open>queued_world\<close>: the first task throws and the second still runs; the
  task enqueued by the first runs in the second pass, after which the queue is empty;
  then \<open>microtaskDrainDone\<close>.
\<close>

theorem drain_runs_all_in_order_witness:
  "hooks_return logging_env
   \<and> microTaskQueue queued_world = [1, 2]
   \<and> fst (runTask logging_env zoneA 1 JNull [] queued_world) = Inl (Error ''boom'')
   \<and> fst (drain_task logging_env 1 queued_world) = Inr ()
   \<and> user (snd (drain_task logging_env 1 queued_world)) = [''a'', ''unhandled'']
   \<and> drainMicroTaskQueue (Suc (Suc (Suc 0))) logging_env queued_world
       = Some (Inr (),
           (snd (microtaskDrainDone logging_env
              ((drain_pass logging_env ^^ Suc (Suc 0))
                 (queued_world\<lparr>isDrainingMicrotaskQueue := True\<rparr>))))
           \<lparr>isDrainingMicrotaskQueue := False\<rparr>)
   \<and> user (snd (the (drainMicroTaskQueue (Suc (Suc (Suc 0))) logging_env queued_world)))
       = [''a'', ''unhandled'', ''b'', ''c'', ''done'']
   \<and> microTaskQueue (snd (the (drainMicroTaskQueue (Suc (Suc (Suc 0))) logging_env queued_world)))
       = []
   \<and> \<not> isDrainingMicrotaskQueue
          (snd (the (drainMicroTaskQueue (Suc (Suc (Suc 0))) logging_env queued_world)))"
proof -
  let ?v1 = "snd (runTask logging_env zoneA 1 JNull [] queued_world)"
  let ?W = "(drain_pass logging_env ^^ Suc (Suc 0)) (queued_world\<lparr>isDrainingMicrotaskQueue := True\<rparr>)"
  have h: "hooks_return logging_env"
    by (simp add: hooks_return_def logging_env_def)
  have r: "task_zone (tasks queued_world 1) = Some zoneA
           \<and> runTask logging_env zoneA 1 JNull [] queued_world = (Inl (Error ''boom''), ?v1)"
    using logging_first_task by (simp add: prod_eq_iff)
  note T = drain_runs_all_in_order [OF h, where tid = 1 and v = queued_world and z = zoneA
      and error = "Error ''boom''" and ?v1.0 = ?v1 and k = "Suc (Suc 0)" and m = 0]
  have d: "drain_task logging_env 1 queued_world
             = (Inr (), snd (onUnhandledError logging_env (Error ''boom'') ?v1))"
    using T r by blast
  have u: "user (snd (onUnhandledError logging_env (Error ''boom'') ?v1)) = [''a'', ''unhandled'']"
    using logging_first_task by (simp add: logging_env_def)
  have p: "\<not> isDrainingMicrotaskQueue queued_world \<and> microTaskQueue ?W = []"
    using logging_passes by simp
  have e: "drainMicroTaskQueue (Suc (Suc (Suc 0))) logging_env queued_world
       = Some (Inr (), (snd (microtaskDrainDone logging_env ?W))\<lparr>isDrainingMicrotaskQueue := False\<rparr>)"
    using T p by simp
  show ?thesis
    using h d u e logging_first_task queued_world_queue logging_drain by simp
qed

end
